theory Spec2Isabelle
  imports Complex_Main
begin

section \<open>Python strings\<close>

text \<open>
  A Python \<open>str\<close> is a sequence of Unicode code points; \<open>len\<close>, slicing and \<open>in\<close> count and
  compare code points. It is modelled as a list of code points. The string constants of
  \<open>main.py\<close> are written out as such lists; the comment beside each gives its text (ASCII as it
  is, other code points as U+hex).
\<close>

type_synonym pystr = "nat list"

text \<open>\<open>k in s\<close> for two strings: \<open>k\<close> occurs in \<open>s\<close> as a contiguous run.\<close>

fun starts_with :: "pystr \<Rightarrow> pystr \<Rightarrow> bool" where
  "starts_with [] s = True"
| "starts_with (k # ks) [] = False"
| "starts_with (k # ks) (c # cs) = (k = c \<and> starts_with ks cs)"

fun py_in :: "pystr \<Rightarrow> pystr \<Rightarrow> bool" where
  "py_in k [] = (k = [])"
| "py_in k (c # cs) = (starts_with k (c # cs) \<or> py_in k cs)"

text \<open>\<open>any(k in s for k in ks)\<close>.\<close>

definition any_in :: "pystr list \<Rightarrow> pystr \<Rightarrow> bool" where
  "any_in ks s = list_ex (\<lambda>k. py_in k s) ks"

text \<open>
  \<open>str.strip()\<close> without argument removes leading and trailing whitespace, where whitespace is
  what \<open>str.isspace\<close> accepts: the code points below.
\<close>

definition py_isspace :: "nat \<Rightarrow> bool" where
  "py_isspace c =
     ((9 \<le> c \<and> c \<le> 13) \<or> (28 \<le> c \<and> c \<le> 32) \<or> c = 133 \<or> c = 160 \<or> c = 5760
      \<or> (8192 \<le> c \<and> c \<le> 8202) \<or> c = 8232 \<or> c = 8233 \<or> c = 8239 \<or> c = 8287
      \<or> c = 12288)"

definition strip :: "pystr \<Rightarrow> pystr" where
  "strip s = rev (dropWhile py_isspace (rev (dropWhile py_isspace s)))"

text \<open>
  \<open>str.lower()\<close> follows the Unicode case tables of the Python runtime, which are not part of
  the program. The classifier takes it as a parameter \<open>lower\<close>. Two facts about it are used
  where a theorem needs them, and stated as \<open>lower_contract\<close>: the empty string stays empty,
  and a run of ASCII characters inside a string is lowered in place, character by character
  (A to Z become a to z, every other ASCII character stays).
  \<open>ascii_lower\<close> is the ASCII fragment of \<open>str.lower()\<close>; it serves as the concrete runtime
  in evaluated examples.
\<close>

definition ascii_lower_cp :: "nat \<Rightarrow> nat" where
  "ascii_lower_cp c = (if 65 \<le> c \<and> c \<le> 90 then c + 32 else c)"

definition ascii_lower :: "pystr \<Rightarrow> pystr" where
  "ascii_lower s = map ascii_lower_cp s"

definition lower_contract :: "(pystr \<Rightarrow> pystr) \<Rightarrow> bool" where
  "lower_contract lower \<longleftrightarrow>
     lower [] = [] \<and>
     (\<forall>p v s. (\<forall>c \<in> set v. c < 128) \<longrightarrow>
        (\<exists>p' s'. lower (p @ v @ s) = p' @ map ascii_lower_cp v @ s'))"

section \<open>The error classifier: \<open>Application._simplify_for_teacher\<close>\<close>

text \<open>The pattern lists of the six \<open>if any(k in low for k in [...])\<close> tests, in source order.\<close>

definition pats_timeout :: "pystr list" where
  \<comment> \<open>"timed out", "timeout"\<close>
  "pats_timeout =
     [[116, 105, 109, 101, 100, 32, 111, 117, 116],
      [116, 105, 109, 101, 111, 117, 116]]"

definition pats_auth :: "pystr list" where
  \<comment> \<open>"401", "unauthorized", "invalid api key"\<close>
  "pats_auth =
     [[52, 48, 49],
      [117, 110, 97, 117, 116, 104, 111, 114, 105, 122, 101, 100],
      [105, 110, 118, 97, 108, 105, 100, 32, 97, 112, 105, 32, 107, 101, 121]]"

definition pats_quota :: "pystr list" where
  \<comment> \<open>"403", "forbidden", "quota", U+4F59 U+989D, "payment", "insufficient"\<close>
  "pats_quota =
     [[52, 48, 51],
      [102, 111, 114, 98, 105, 100, 100, 101, 110],
      [113, 117, 111, 116, 97],
      [20313, 39069],
      [112, 97, 121, 109, 101, 110, 116],
      [105, 110, 115, 117, 102, 102, 105, 99, 105, 101, 110, 116]]"

definition pats_rate_limit :: "pystr list" where
  \<comment> \<open>"429", "rate limit", "too many"\<close>
  "pats_rate_limit =
     [[52, 50, 57],
      [114, 97, 116, 101, 32, 108, 105, 109, 105, 116],
      [116, 111, 111, 32, 109, 97, 110, 121]]"

definition pats_upstream :: "pystr list" where
  \<comment> \<open>"502", "503", "504", "service unavailable", "bad gateway"\<close>
  "pats_upstream =
     [[53, 48, 50],
      [53, 48, 51],
      [53, 48, 52],
      [115, 101, 114, 118, 105, 99, 101, 32, 117, 110, 97, 118, 97, 105, 108, 97, 98, 108, 101],
      [98, 97, 100, 32, 103, 97, 116, 101, 119, 97, 121]]"

definition pats_file_locked :: "pystr list" where
  \<comment> \<open>"permission", "access is denied", U+88AB U+5360 U+7528, U+6B63 U+5728 U+4F7F U+7528\<close>
  "pats_file_locked =
     [[112, 101, 114, 109, 105, 115, 115, 105, 111, 110],
      [97, 99, 99, 101, 115, 115, 32, 105, 115, 32, 100, 101, 110, 105, 101, 100],
      [34987, 21344, 29992],
      [27491, 22312, 20351, 29992]]"

text \<open>
  The returned sentences (lines 445 to 458), each a fixed teacher-facing text: network timeout,
  invalid key, no permission or quota, rate limited, platform unavailable, file locked; the
  sentence for an empty message; the prefix of the echo and the one-character ellipsis U+2026.
\<close>

definition msg_timeout :: pystr where
  "msg_timeout =
     [32593, 32476, 21487, 33021, 19981, 31283, 23450, 65288, 36830, 25509, 36229, 26102, 65289,
      12290, 24314, 35758, 65306, 26816, 26597, 32593, 32476, 65292, 31245, 31561, 20877, 35797,
      12290]"

definition msg_auth :: pystr where
  "msg_auth =
     [23494, 38053, 21487, 33021, 19981, 27491, 30830, 25110, 24050, 22833, 25928, 12290, 24314,
      35758, 65306, 37325, 26032, 22797, 21046, 23494, 38053, 20877, 35797, 12290]"

definition msg_quota :: pystr where
  "msg_quota =
     [36134, 21495, 21487, 33021, 27809, 26377, 26435, 38480, 25110, 20313, 39069, 47, 39069,
      24230, 19981, 36275, 12290, 24314, 35758, 65306, 26816, 26597, 36134, 21495, 20313, 39069,
      47, 39069, 24230, 12290]"

definition msg_rate_limit :: pystr where
  "msg_rate_limit =
     [35831, 27714, 22826, 39057, 32321, 65292, 24179, 21488, 20020, 26102, 38480, 21046, 12290,
      24314, 35758, 65306, 31561, 49, 48, 126, 51, 48, 31186, 20877, 35797, 12290]"

definition msg_upstream :: pystr where
  "msg_upstream =
     [24179, 21488, 26381, 21153, 32321, 24537, 25110, 20020, 26102, 19981, 21487, 29992, 12290,
      24314, 35758, 65306, 31245, 21518, 20877, 35797, 25110, 25442, 22791, 29992, 24179, 21488,
      12290]"

definition msg_file_locked :: pystr where
  "msg_file_locked =
     [25991, 20214, 21487, 33021, 34987, 21344, 29992, 25110, 27809, 26377, 20889, 20837, 26435,
      38480, 12290, 24314, 35758, 65306, 20851, 38381, 69, 120, 99, 101, 108, 21518, 20877, 35797,
      12290]"

definition msg_no_reason :: pystr where
  "msg_no_reason =
     [21457, 29983, 20102, 38169, 35823, 65292, 20294, 27809, 26377, 25910, 21040, 20855, 20307,
      21407, 22240, 12290]"

definition msg_prefix :: pystr where
  "msg_prefix = [21457, 29983, 20102, 38169, 35823, 65306]"

definition ellipsis :: pystr where
  "ellipsis = [8230]"

text \<open>
  \<open>_simplify_for_teacher(text)\<close>. The argument is a string or \<open>None\<close>; \<open>text or ""\<close> turns
  \<open>None\<close> into the empty string. The echo of the last line is
  \<open>prefix + t[:80] + (ellipsis if len(t) > 80 else "")\<close>.
\<close>

definition echo :: "pystr \<Rightarrow> pystr" where
  "echo t = msg_prefix @ take 80 t @ (if length t > 80 then ellipsis else [])"

definition simplify_for_teacher :: "(pystr \<Rightarrow> pystr) \<Rightarrow> pystr option \<Rightarrow> pystr" where
  "simplify_for_teacher lower text =
     (let t = strip (case text of None \<Rightarrow> [] | Some s \<Rightarrow> s);
          low = lower t
      in if any_in pats_timeout low then msg_timeout
         else if any_in pats_auth low then msg_auth
         else if any_in pats_quota low then msg_quota
         else if any_in pats_rate_limit low then msg_rate_limit
         else if any_in pats_upstream low then msg_upstream
         else if any_in pats_file_locked low then msg_file_locked
         else if t = [] then msg_no_reason
         else echo t)"

text \<open>
  The classifier as the specification words it: an ordered table of pattern sets and
  categories, read top to bottom, the first entry with a matching pattern giving the result.
\<close>

definition classifier_table :: "(pystr list \<times> pystr) list" where
  "classifier_table =
     [(pats_timeout, msg_timeout), (pats_auth, msg_auth), (pats_quota, msg_quota),
      (pats_rate_limit, msg_rate_limit), (pats_upstream, msg_upstream),
      (pats_file_locked, msg_file_locked)]"

fun first_match :: "(pystr list \<times> pystr) list \<Rightarrow> pystr \<Rightarrow> pystr option" where
  "first_match [] low = None"
| "first_match ((ks, m) # rest) low = (if any_in ks low then Some m else first_match rest low)"

text \<open>
  The example message of the specification, "Connection timed out after 30s", in lower case:
  every spelling of it in upper and lower case is a string \<open>v\<close> with
  \<open>map ascii_lower_cp v = connection_timed_out_low\<close>.
\<close>

definition connection_timed_out_low :: pystr where
  "connection_timed_out_low =
     [99, 111, 110, 110, 101, 99, 116, 105, 111, 110, 32, 116, 105, 109, 101, 100, 32, 111, 117,
      116, 32, 97, 102, 116, 101, 114, 32, 51, 48, 115]"

section \<open>The native hook: class \<open>_WindowsExclusiveEscHook\<close>\<close>

text \<open>
  Timestamps are the values of \<open>time.time()\<close>, seconds as a Python float. They are modelled as
  real numbers: the comparisons of the program are taken exactly, without rounding.

  What lies outside \<open>main.py\<close> is a parameter of the model, collected in \<open>env\<close>: the platform
  (\<open>sys.platform == 'win32'\<close>), what \<open>SetWindowsHookExW\<close> returns (a handle, or \<open>None\<close> for
  NULL), whether the \<open>keyboard\<close> library was imported, whether its \<open>remove_hotkey\<close> raises,
  the runtime's \<open>str.lower\<close>, which of the two methods the main window offers
  (\<open>hasattr(self.main_window, ...)\<close>), and, for each of the three calls of a main-window
  method that \<open>show_error_notification\<close> makes inside a \<open>try\<close>, whether that call raises: the
  reset inside the suppression window (line 844), the reset for a manual-review message
  (line 854) and the reset for a user stop (line 863 or 866).
\<close>

record env =
  win32 :: bool
  set_windows_hook_ex :: "nat option"
  keyboard_lib :: bool
  remove_hotkey_raises :: bool
  str_lower :: "pystr \<Rightarrow> pystr"
  has_on_worker_error :: bool
  has_update_ui_state :: bool
  window_reset_raises :: bool
  review_reset_raises :: bool
  stop_reset_raises :: bool

text \<open>
  The fields of the hook object. \<open>thread\<close> stands for \<open>self._thread is not None\<close>.
  \<open>install_calls\<close> is a counter added by the model: the number of calls of
  \<open>SetWindowsHookExW\<close> made so far.
\<close>

record hook_state =
  enabled :: bool
  last_hit_ts :: real
  hook_handle :: "nat option"
  thread :: bool
  install_calls :: nat

definition hook_init :: hook_state where
  "hook_init = \<lparr>enabled = False, last_hit_ts = 0, hook_handle = None, thread = False,
                 install_calls = 0\<rparr>"

definition set_enabled :: "bool \<Rightarrow> hook_state \<Rightarrow> hook_state" where
  "set_enabled b h = h\<lparr>enabled := b\<rparr>"

text \<open>
  \<open>start()\<close>. On another platform it returns \<open>False\<close>; with a thread already there it returns
  \<open>True\<close> and does nothing; otherwise it creates the hook thread and returns \<open>True\<close>. The thread
  calls \<open>SetWindowsHookExW\<close> once and keeps the handle (it ends at once, the handle \<open>None\<close>,
  when the call fails). The model runs this first step of the thread together with
  \<open>start()\<close>.
\<close>

definition start :: "env \<Rightarrow> hook_state \<Rightarrow> bool \<times> hook_state" where
  "start e h =
     (if \<not> win32 e then (False, h)
      else if thread h then (True, h)
      else (True, h\<lparr>hook_handle := set_windows_hook_ex e, thread := True,
                      install_calls := install_calls h + 1\<rparr>))"

text \<open>
  \<open>stop()\<close> posts \<open>WM_QUIT\<close> to the hook thread, whose \<open>finally\<close> block removes the hook and
  clears the handle.
\<close>

definition stop :: "env \<Rightarrow> hook_state \<Rightarrow> hook_state" where
  "stop e h = (if \<not> win32 e then h else if thread h then h\<lparr>hook_handle := None\<rparr> else h)"

subsection \<open>The callback \<open>_hook_proc\<close>\<close>

definition HC_ACTION :: int where "HC_ACTION = 0"
definition WM_KEYDOWN :: nat where "WM_KEYDOWN = 256"
definition WM_SYSKEYDOWN :: nat where "WM_SYSKEYDOWN = 260"
definition VK_ESCAPE :: nat where "VK_ESCAPE = 27"

text \<open>A key event as the callback receives it; \<open>vkCode\<close> is read through \<open>lParam\<close>.\<close>

record kbd_event =
  nCode :: int
  wParam :: nat
  vkCode :: nat

text \<open>
  What one call of the callback meets: whether reading the structure behind \<open>lParam\<close> raises,
  the answer of \<open>should_swallow()\<close> (the worker is running; \<open>None\<close> when the call raises), the
  clock, and whether \<open>on_esc()\<close> raises. \<open>on_esc\<close> posts one call of \<open>stop_auto_thread\<close> to the
  UI thread (\<open>QTimer.singleShot(0, ...)\<close>): one stop request.
\<close>

record hook_env =
  cast_raises :: bool
  should_swallow :: "bool option"
  now :: real
  on_esc_raises :: bool

text \<open>
  The callback returns 1, which swallows the key, or the result of \<open>CallNextHookEx\<close> on the
  arguments it received, which hands the event on unchanged.
\<close>

datatype hook_ret = Swallow | CallNext kbd_event

text \<open>
  The body of the \<open>try\<close>: the new hook state, the number of stop requests posted, and the
  value returned, \<open>None\<close> when an exception left the body.
\<close>

definition hook_try :: "hook_env \<Rightarrow> kbd_event \<Rightarrow> hook_state \<Rightarrow> hook_state \<times> nat \<times> hook_ret option" where
  "hook_try he ev h =
     (if nCode ev = HC_ACTION \<and> (wParam ev = WM_KEYDOWN \<or> wParam ev = WM_SYSKEYDOWN) then
        if cast_raises he then (h, 0, None)
        else if vkCode ev = VK_ESCAPE then
          if enabled h then
            (case should_swallow he of
               None \<Rightarrow> (h, 0, None)
             | Some running \<Rightarrow>
                 if running then
                   if 0.25 \<le> now he - last_hit_ts h then
                     if on_esc_raises he then (h\<lparr>last_hit_ts := now he\<rparr>, 0, None)
                     else (h\<lparr>last_hit_ts := now he\<rparr>, 1, Some Swallow)
                   else (h, 0, Some Swallow)
                 else (h, 0, Some (CallNext ev)))
          else (h, 0, Some (CallNext ev))
        else (h, 0, Some (CallNext ev))
      else (h, 0, Some (CallNext ev)))"

text \<open>\<open>_hook_proc\<close>: the body, and \<open>except Exception: return CallNextHookEx(...)\<close>.\<close>

definition hook_proc :: "hook_env \<Rightarrow> kbd_event \<Rightarrow> hook_state \<Rightarrow> hook_ret \<times> hook_state \<times> nat" where
  "hook_proc he ev h =
     (case hook_try he ev h of
        (h', n, Some r) \<Rightarrow> (r, h', n)
      | (h', n, None) \<Rightarrow> (CallNext ev, h', n))"

text \<open>Two calls of the callback in a row, at the times \<open>t1\<close> and \<open>t2\<close>: the stop requests posted.\<close>

definition two_triggers :: "hook_env \<Rightarrow> real \<Rightarrow> real \<Rightarrow> kbd_event \<Rightarrow> hook_state \<Rightarrow> nat" where
  "two_triggers he t1 t2 ev h =
     (case hook_proc (he\<lparr>now := t1\<rparr>) ev h of
        (r1, h1, n1) \<Rightarrow>
          (case hook_proc (he\<lparr>now := t2\<rparr>) ev h1 of (r2, h2, n2) \<Rightarrow> n1 + n2))"

definition esc_keydown :: kbd_event where
  "esc_keydown = \<lparr>nCode = HC_ACTION, wParam = WM_KEYDOWN, vkCode = VK_ESCAPE\<rparr>"

section \<open>The application: class \<open>Application\<close>\<close>

text \<open>
  The part of the application object the interrupt handling reads and writes: the hook
  object, the hot-key handle of the \<open>keyboard\<close> library, the end of the suppression window,
  and whether the main window is minimised (\<open>self.main_window.isMinimized()\<close>).
\<close>

record app_state =
  win_exclusive_esc :: hook_state
  exclusive_esc_hotkey_id :: "nat option"
  suppress_error_dialog_until :: real
  minimized :: bool

definition app_init :: app_state where
  "app_init = \<lparr>win_exclusive_esc = hook_init, exclusive_esc_hotkey_id = None,
                suppress_error_dialog_until = 0, minimized = False\<rparr>"

text \<open>
  The four modal dialogs, by the place that builds them; titles and fixed texts are constants
  of the source, the arguments are the parts that vary: the teacher-facing reason of the
  "grading interrupted" dialog, and the message and raw feedback of the manual-intervention
  dialog. \<open>dialog.exec_()\<close> shows a dialog and blocks until it is closed.
\<close>

datatype dialog =
    CompletionDialog
  | ErrorDialog pystr
  | ThresholdDialog
  | ManualDialog pystr pystr

text \<open>What a handler does to its collaborators, in program order.\<close>

datatype event =
    SetEnabled bool
  | RemoveHotkey nat
  | OnWorkerFinished
  | OnWorkerError pystr
  | UpdateUiState bool
  | PrintMissing
  | ShowNormal
  | RaiseWindow
  | ActivateWindow
  | ExecDialog dialog

fun is_dialog :: "event \<Rightarrow> bool" where
  "is_dialog (ExecDialog d) = True"
| "is_dialog _ = False"

definition dialogs :: "event list \<Rightarrow> event list" where
  "dialogs evs = filter is_dialog evs"

text \<open>
  \<open>_enable_exclusive_esc_if_possible\<close>: nothing off Windows; on Windows the hook object exists
  and \<open>set_enabled(True)\<close> does not raise, so the method returns after it. The lines below
  that \<open>return\<close> (the \<open>keyboard\<close> hot key) are never reached.
\<close>

definition enable_exclusive_esc_if_possible :: "env \<Rightarrow> app_state \<Rightarrow> app_state \<times> event list" where
  "enable_exclusive_esc_if_possible e st =
     (if \<not> win32 e then (st, [])
      else (st\<lparr>win_exclusive_esc := set_enabled True (win_exclusive_esc st)\<rparr>, [SetEnabled True]))"

text \<open>
  \<open>_disable_exclusive_esc\<close>: \<open>set_enabled(False)\<close>; then, with the \<open>keyboard\<close> library, the
  hot key is removed if there is one (\<open>except Exception: pass\<close> when that raises) and the
  handle is cleared in the \<open>finally\<close>. Every call that may raise is inside a \<open>try\<close> whose
  handler is \<open>pass\<close>, so the method has no error result.
\<close>

definition disable_exclusive_esc :: "env \<Rightarrow> app_state \<Rightarrow> app_state \<times> event list" where
  "disable_exclusive_esc e st =
     (let st1 = st\<lparr>win_exclusive_esc := set_enabled False (win_exclusive_esc st)\<rparr>
      in if \<not> keyboard_lib e then (st1, [SetEnabled False])
         else (st1\<lparr>exclusive_esc_hotkey_id := None\<rparr>,
               SetEnabled False #
                 (case exclusive_esc_hotkey_id st of
                    None \<Rightarrow> []
                  | Some hid \<Rightarrow> if remove_hotkey_raises e then [] else [RemoveHotkey hid])))"

text \<open>
  The end of the three simple handlers: \<open>showNormal\<close> when minimised, \<open>raise_\<close>,
  \<open>activateWindow\<close>; and the recovery used where the window is restored before the dialog.
\<close>

definition restore_window :: "app_state \<Rightarrow> app_state \<times> event list" where
  "restore_window st =
     (st\<lparr>minimized := False\<rparr>,
      (if minimized st then [ShowNormal] else []) @ [RaiseWindow, ActivateWindow])"

definition show_normal_if_minimized :: "app_state \<Rightarrow> app_state \<times> event list" where
  "show_normal_if_minimized st =
     (st\<lparr>minimized := False\<rparr>, if minimized st then [ShowNormal, ActivateWindow] else [])"

definition update_ui_state_if_present :: "env \<Rightarrow> event list" where
  "update_ui_state_if_present e = (if has_update_ui_state e then [UpdateUiState False] else [])"

definition show_completion_notification :: "env \<Rightarrow> app_state \<Rightarrow> app_state \<times> event list" where
  "show_completion_notification e st =
     (case disable_exclusive_esc e st of
        (st1, ev1) \<Rightarrow>
          (case restore_window st1 of
             (st2, ev2) \<Rightarrow>
               (st2, ev1 @ [OnWorkerFinished, ExecDialog CompletionDialog] @ ev2)))"

text \<open>
  The two pattern tests of \<open>show_error_notification\<close> (lines 852 and 861), on the message
  itself, not lowered.
\<close>

definition pats_manual_review :: "pystr list" where
  \<comment> \<open>U+9700 U+4EBA U+5DE5 U+4ECB U+5165, U+9700 U+8981 U+4EBA U+5DE5 U+4ECB U+5165,
      U+4EBA U+5DE5 U+4ECB U+5165, U+5F02 U+5E38 U+8BD5 U+5377\<close>
  "pats_manual_review =
     [[38656, 20154, 24037, 20171, 20837],
      [38656, 35201, 20154, 24037, 20171, 20837],
      [20154, 24037, 20171, 20837],
      [24322, 24120, 35797, 21367]]"

definition pat_user_stop :: pystr where
  \<comment> \<open>U+7528 U+6237 U+624B U+52A8 U+505C U+6B62 ("stopped by the user by hand")\<close>
  "pat_user_stop = [29992, 25143, 25163, 21160, 20572, 27490]"

definition pat_manual_stop :: pystr where
  \<comment> \<open>U+624B U+52A8 U+505C U+6B62 ("stopped by hand")\<close>
  "pat_manual_stop = [25163, 21160, 20572, 27490]"

text \<open>
  The common part of the error and threshold handlers: \<open>on_worker_error(arg)\<close>, or without
  that method a printed line and the basic recovery.
\<close>

definition report_worker_error :: "env \<Rightarrow> pystr \<Rightarrow> app_state \<Rightarrow> app_state \<times> event list" where
  "report_worker_error e arg st =
     (if has_on_worker_error e then (st, [OnWorkerError arg])
      else (case show_normal_if_minimized st of
              (st1, ev1) \<Rightarrow> (st1, PrintMissing # ev1 @ update_ui_state_if_present e)))"

text \<open>
  \<open>show_error_notification(error_message)\<close>, called at the time \<open>t\<close>. After disarming the hook
  it runs three blocks of the form \<open>try: if test: reset; return / except Exception: pass\<close>.
  Each block either ends the handler (\<open>Some\<close> of what the reset did) or lets control go on to
  the next block (\<open>None\<close>): that happens when the test is false, and also when the reset call
  raises, because the \<open>except\<close> clause passes and the \<open>return\<close> has been skipped.

  A guarded \<open>if hasattr(self.main_window, 'update_ui_state'):
  self.main_window.update_ui_state(is_running=False)\<close> followed by \<open>return\<close>:
\<close>

definition guarded_update_ui_state :: "env \<Rightarrow> bool \<Rightarrow> event list option" where
  "guarded_update_ui_state e raises =
     (if has_update_ui_state e \<and> raises then None else Some (update_ui_state_if_present e))"

text \<open>Lines 841 to 847: inside the suppression window.\<close>

definition error_window_block :: "env \<Rightarrow> real \<Rightarrow> app_state \<Rightarrow> event list option" where
  "error_window_block e t st =
     (if t < suppress_error_dialog_until st
      then guarded_update_ui_state e (window_reset_raises e)
      else None)"

text \<open>Lines 850 to 857: the message names a manual review.\<close>

definition error_review_block :: "env \<Rightarrow> pystr \<Rightarrow> event list option" where
  "error_review_block e error_message =
     (if any_in pats_manual_review error_message
      then guarded_update_ui_state e (review_reset_raises e)
      else None)"

text \<open>Lines 860 to 869: the user stopped the run.\<close>

definition error_stop_block :: "env \<Rightarrow> pystr \<Rightarrow> event list option" where
  "error_stop_block e error_message =
     (if py_in pat_user_stop error_message \<or> py_in pat_manual_stop error_message then
        if has_on_worker_error e then
          (if stop_reset_raises e then None else Some [OnWorkerError pat_user_stop])
        else guarded_update_ui_state e (stop_reset_raises e)
      else None)"

text \<open>The three blocks in order: what ends the handler early, if anything does.\<close>

definition error_early :: "env \<Rightarrow> real \<Rightarrow> pystr \<Rightarrow> app_state \<Rightarrow> event list option" where
  "error_early e t error_message st =
     (case error_window_block e t st of
        Some ev \<Rightarrow> Some ev
      | None \<Rightarrow>
          (case error_review_block e error_message of
             Some ev \<Rightarrow> Some ev
           | None \<Rightarrow> error_stop_block e error_message))"

text \<open>
  The handler. The calls after the three blocks (\<open>on_worker_error(error_message)\<close> or the
  basic recovery, lines 871 to 877) stand outside any \<open>try\<close> and are taken to return.
  \<open>_simplify_for_teacher\<close> does not raise on a string, so the \<open>except\<close> of line 882 is never
  entered.
\<close>

definition show_error_notification :: "env \<Rightarrow> real \<Rightarrow> pystr \<Rightarrow> app_state \<Rightarrow> app_state \<times> event list" where
  "show_error_notification e t error_message st =
     (case disable_exclusive_esc e st of
        (st1, ev1) \<Rightarrow>
          (case error_early e t error_message st1 of
             Some ev \<Rightarrow> (st1, ev1 @ ev)
           | None \<Rightarrow>
               (case report_worker_error e error_message st1 of
                  (st2, ev2) \<Rightarrow>
                    (case restore_window st2 of
                       (st3, ev3) \<Rightarrow>
                         (st3, ev1 @ ev2 @
                               [ExecDialog (ErrorDialog
                                  (simplify_for_teacher (str_lower e) (Some error_message)))] @
                               ev3)))))"

definition show_threshold_exceeded_notification :: "env \<Rightarrow> pystr \<Rightarrow> app_state \<Rightarrow> app_state \<times> event list" where
  "show_threshold_exceeded_notification e reason st =
     (case disable_exclusive_esc e st of
        (st1, ev1) \<Rightarrow>
          (case report_worker_error e reason st1 of
             (st2, ev2) \<Rightarrow>
               (case restore_window st2 of
                  (st3, ev3) \<Rightarrow> (st3, ev1 @ ev2 @ [ExecDialog ThresholdDialog] @ ev3))))"

text \<open>
  \<open>show_manual_intervention_notification(message, raw_feedback)\<close>, called at the time \<open>t\<close>:
  it sets the end of the suppression window to \<open>time.time() + 2.0\<close>.
\<close>

definition show_manual_intervention_notification :: "env \<Rightarrow> real \<Rightarrow> pystr \<Rightarrow> pystr \<Rightarrow> app_state \<Rightarrow> app_state \<times> event list" where
  "show_manual_intervention_notification e t message raw_feedback st =
     (case disable_exclusive_esc e st of
        (st1, ev1) \<Rightarrow>
          (case show_normal_if_minimized (st1\<lparr>suppress_error_dialog_until := t + 2\<rparr>) of
             (st2, ev2) \<Rightarrow>
               (case restore_window st2 of
                  (st3, ev3) \<Rightarrow>
                    (st3, ev1 @ ev2 @ update_ui_state_if_present e @
                          [ExecDialog (ManualDialog message raw_feedback)] @ ev3))))"

subsection \<open>Terminal signals and their slots: \<open>connect_worker_signals\<close>\<close>

datatype terminal_signal =
    Completed
  | Error pystr
  | ThresholdExceeded pystr
  | ManualIntervention pystr pystr

text \<open>
  The slots of each worker signal run in the order in which \<open>connect_worker_signals\<close> connected
  them: for \<open>finished_signal\<close> first \<open>_disable_exclusive_esc\<close>, then
  \<open>show_completion_notification\<close>; for the three others first the \<open>show_...\<close> handler, then
  the lambda that calls \<open>_disable_exclusive_esc\<close>. \<open>t\<close> is the time at which the signal is
  handled.
\<close>

definition deliver :: "env \<Rightarrow> real \<Rightarrow> terminal_signal \<Rightarrow> app_state \<Rightarrow> app_state \<times> event list" where
  "deliver e t sig st =
     (case sig of
        Completed \<Rightarrow>
          (case disable_exclusive_esc e st of
             (st1, ev1) \<Rightarrow>
               (case show_completion_notification e st1 of (st2, ev2) \<Rightarrow> (st2, ev1 @ ev2)))
      | Error error_message \<Rightarrow>
          (case show_error_notification e t error_message st of
             (st1, ev1) \<Rightarrow>
               (case disable_exclusive_esc e st1 of (st2, ev2) \<Rightarrow> (st2, ev1 @ ev2)))
      | ThresholdExceeded reason \<Rightarrow>
          (case show_threshold_exceeded_notification e reason st of
             (st1, ev1) \<Rightarrow>
               (case disable_exclusive_esc e st1 of (st2, ev2) \<Rightarrow> (st2, ev1 @ ev2)))
      | ManualIntervention message raw_feedback \<Rightarrow>
          (case show_manual_intervention_notification e t message raw_feedback st of
             (st1, ev1) \<Rightarrow>
               (case disable_exclusive_esc e st1 of (st2, ev2) \<Rightarrow> (st2, ev1 @ ev2))))"

text \<open>A run of the worker as the signals it delivers, each with the time of its handling.\<close>

fun run_signals :: "env \<Rightarrow> (real \<times> terminal_signal) list \<Rightarrow> app_state \<Rightarrow> app_state \<times> event list" where
  "run_signals e [] st = (st, [])"
| "run_signals e ((t, sig) # rest) st =
     (case deliver e t sig st of
        (st1, ev1) \<Rightarrow> (case run_signals e rest st1 of (st2, ev2) \<Rightarrow> (st2, ev1 @ ev2)))"

fun is_error :: "terminal_signal \<Rightarrow> bool" where
  "is_error (Error m) = True"
| "is_error _ = False"

section \<open>The interception subsystem as a whole\<close>

text \<open>
  A key event in the system. With the hook installed the operating system calls
  \<open>_hook_proc\<close>. Without it, a hot key registered by \<open>keyboard.add_hotkey('esc', _on_esc,
  suppress=True)\<close> swallows an Esc key-down and runs \<open>_on_esc\<close> (lines 614 to 620: disable,
  then one stop request). Otherwise the subsystem does not see the key: it goes on to the
  other applications unchanged.
\<close>

definition key_event :: "env \<Rightarrow> hook_env \<Rightarrow> kbd_event \<Rightarrow> app_state \<Rightarrow> hook_ret \<times> app_state \<times> nat" where
  "key_event e he ev st =
     (case hook_handle (win_exclusive_esc st) of
        Some hh \<Rightarrow>
          (case hook_proc he ev (win_exclusive_esc st) of
             (r, h', n) \<Rightarrow> (r, st\<lparr>win_exclusive_esc := h'\<rparr>, n))
      | None \<Rightarrow>
          (case exclusive_esc_hotkey_id st of
             Some hid \<Rightarrow>
               if vkCode ev = VK_ESCAPE \<and> wParam ev = WM_KEYDOWN
               then (Swallow, fst (disable_exclusive_esc e st), 1)
               else (CallNext ev, st, 0)
           | None \<Rightarrow> (CallNext ev, st, 0)))"

text \<open>
  The calls that reach the subsystem during the life of the process: \<open>start()\<close> of the hook
  object, the enable and disable methods, \<open>stop()\<close>, and key events.
\<close>

datatype op = Start | Enable | Disable | Stop | Key hook_env kbd_event

datatype outcome = StartReturned bool | Returned | KeyOutcome hook_ret

fun apply_op :: "env \<Rightarrow> op \<Rightarrow> app_state \<Rightarrow> outcome \<times> app_state" where
  "apply_op e Start st =
     (case start e (win_exclusive_esc st) of
        (b, h) \<Rightarrow> (StartReturned b, st\<lparr>win_exclusive_esc := h\<rparr>))"
| "apply_op e Enable st = (Returned, fst (enable_exclusive_esc_if_possible e st))"
| "apply_op e Disable st = (Returned, fst (disable_exclusive_esc e st))"
| "apply_op e Stop st = (Returned, st\<lparr>win_exclusive_esc := stop e (win_exclusive_esc st)\<rparr>)"
| "apply_op e (Key he ev) st =
     (case key_event e he ev st of (r, st', n) \<Rightarrow> (KeyOutcome r, st'))"

fun run_ops :: "env \<Rightarrow> op list \<Rightarrow> app_state \<Rightarrow> outcome list \<times> app_state" where
  "run_ops e [] st = ([], st)"
| "run_ops e (x # xs) st =
     (case apply_op e x st of
        (r, st1) \<Rightarrow> (case run_ops e xs st1 of (rs, st2) \<Rightarrow> (r # rs, st2)))"

text \<open>What the subsystem answers when it is inert: \<open>start()\<close> fails and every key passes.\<close>

fun inert_outcome :: "op \<Rightarrow> outcome" where
  "inert_outcome Start = StartReturned False"
| "inert_outcome (Key he ev) = KeyOutcome (CallNext ev)"
| "inert_outcome _ = Returned"

section \<open>Concrete environments for evaluated examples\<close>

text \<open>
  A Windows machine on which the hook installs and the main window has both methods, neither
  of which raises, and a machine that is not Windows and has no \<open>keyboard\<close> library.
\<close>

definition windows_env :: env where
  "windows_env = \<lparr>win32 = True, set_windows_hook_ex = Some 1, keyboard_lib = False,
                   remove_hotkey_raises = False, str_lower = ascii_lower,
                   has_on_worker_error = True, has_update_ui_state = True,
                   window_reset_raises = False, review_reset_raises = False,
                   stop_reset_raises = False\<rparr>"

definition other_env :: env where
  "other_env = \<lparr>win32 = False, set_windows_hook_ex = None, keyboard_lib = False,
                 remove_hotkey_raises = False, str_lower = ascii_lower,
                 has_on_worker_error = True, has_update_ui_state = True,
                 window_reset_raises = False, review_reset_raises = False,
                 stop_reset_raises = False\<rparr>"

definition quiet_call :: hook_env where
  "quiet_call = \<lparr>cast_raises = False, should_swallow = Some True, now = 0,
                  on_esc_raises = False\<rparr>"

section \<open>Facts about strings and the classifier\<close>

lemma starts_with_iff: "starts_with k s \<longleftrightarrow> (\<exists>r. s = k @ r)"
  by (induction k s rule: starts_with.induct) auto

lemma py_in_iff: "py_in k s \<longleftrightarrow> (\<exists>p r. s = p @ k @ r)"
proof (induction s)
  case Nil
  then show ?case by simp
next
  case (Cons c cs)
  show ?case
  proof
    assume "py_in k (c # cs)"
    then consider "starts_with k (c # cs)" | "py_in k cs" by auto
    then show "\<exists>p r. c # cs = p @ k @ r"
    proof cases
      case 1
      then obtain r where "c # cs = k @ r" by (auto simp: starts_with_iff)
      then have "c # cs = [] @ k @ r" by simp
      then show ?thesis by blast
    next
      case 2
      then obtain p r where "cs = p @ k @ r" using Cons.IH by blast
      then have "c # cs = (c # p) @ k @ r" by simp
      then show ?thesis by blast
    qed
  next
    assume "\<exists>p r. c # cs = p @ k @ r"
    then obtain p r where e: "c # cs = p @ k @ r" by blast
    show "py_in k (c # cs)"
    proof (cases p)
      case Nil
      with e have "starts_with k (c # cs)" by (auto simp: starts_with_iff)
      then show ?thesis by simp
    next
      case (Cons a p')
      with e have "cs = p' @ k @ r" by simp
      then have "py_in k cs" using Cons.IH by blast
      then show ?thesis by simp
    qed
  qed
qed

lemma strip_all_space: "\<forall>c \<in> set s. py_isspace c \<Longrightarrow> strip s = []"
proof -
  assume a: "\<forall>c \<in> set s. py_isspace c"
  then have d: "dropWhile py_isspace s = []" by (induction s) auto
  show ?thesis unfolding strip_def d by simp
qed

lemma strip_keeps_core:
  assumes "v \<noteq> []" "\<not> py_isspace (hd v)" "\<not> py_isspace (last v)"
  shows "\<exists>p' s'. strip (p @ v @ s) = p' @ v @ s'"
proof -
  have hv: "hd v \<in> set v" and lv: "last v \<in> set v" using assms(1) by auto
  have "\<exists>p'. dropWhile py_isspace (p @ v @ s) = p' @ v @ s"
  proof (cases "\<forall>c \<in> set p. py_isspace c")
    case True
    have "dropWhile py_isspace (v @ s) = v @ s"
      using assms(1,2) by (cases v) auto
    then have "dropWhile py_isspace (p @ v @ s) = [] @ v @ s"
      using True by (simp add: dropWhile_append)
    then show ?thesis by blast
  next
    case False
    then have "dropWhile py_isspace (p @ v @ s) = dropWhile py_isspace p @ v @ s"
      by (auto simp: dropWhile_append)
    then show ?thesis by blast
  qed
  then obtain p' where 1: "dropWhile py_isspace (p @ v @ s) = p' @ v @ s" by blast
  have "\<exists>s'. dropWhile py_isspace (rev (p' @ v @ s)) = s' @ rev v @ rev p'"
  proof (cases "\<forall>c \<in> set s. py_isspace c")
    case True
    have "dropWhile py_isspace (rev v @ rev p') = rev v @ rev p'"
      using assms(1,3) by (cases v rule: rev_cases) auto
    then have "dropWhile py_isspace (rev (p' @ v @ s)) = [] @ rev v @ rev p'"
      using True by (simp add: dropWhile_append)
    then show ?thesis by blast
  next
    case False
    then have "dropWhile py_isspace (rev (p' @ v @ s)) = dropWhile py_isspace (rev s) @ rev v @ rev p'"
      by (auto simp: dropWhile_append)
    then show ?thesis by blast
  qed
  then obtain s' where 2: "dropWhile py_isspace (rev (p' @ v @ s)) = s' @ rev v @ rev p'" by blast
  have "strip (p @ v @ s) = p' @ v @ rev s'"
    using 2 by (simp add: strip_def 1)
  then show ?thesis by blast
qed

lemma simplify_table:
  "simplify_for_teacher lower text =
     (let t = strip (case text of None \<Rightarrow> [] | Some s \<Rightarrow> s) in
      case first_match classifier_table (lower t) of
        Some m \<Rightarrow> m
      | None \<Rightarrow> if t = [] then msg_no_reason else echo t)"
  by (simp add: simplify_for_teacher_def classifier_table_def Let_def)

lemma ascii_lower_contract: "lower_contract ascii_lower"
  unfolding lower_contract_def ascii_lower_def by auto


lemma any_in_iff: "any_in ks s \<longleftrightarrow> (\<exists>k \<in> set ks. \<exists>p r. s = p @ k @ r)"
  by (simp add: any_in_def list_ex_iff py_in_iff)

lemma category_sentences_distinct:
  "distinct [msg_timeout, msg_auth, msg_quota, msg_rate_limit, msg_upstream, msg_file_locked,
             msg_no_reason]"
  by (simp add: msg_timeout_def msg_auth_def msg_quota_def msg_rate_limit_def msg_upstream_def
      msg_file_locked_def msg_no_reason_def)

lemma echo_not_no_reason: "echo t \<noteq> msg_no_reason"
  by (simp add: echo_def msg_prefix_def msg_no_reason_def)

lemma no_reason_not_category: "msg_no_reason \<notin> snd ` set classifier_table"
  using category_sentences_distinct by (auto simp: classifier_table_def)

lemma length_echo: "length (echo t) \<le> 87"
  by (simp add: echo_def msg_prefix_def ellipsis_def)

lemma first_match_wins:
  "i < length tbl \<Longrightarrow> any_in (fst (tbl ! i)) low \<Longrightarrow> \<forall>j < i. \<not> any_in (fst (tbl ! j)) low \<Longrightarrow>
   first_match tbl low = Some (snd (tbl ! i))"
proof (induction tbl arbitrary: i)
  case Nil
  then show ?case by simp
next
  case (Cons a tbl)
  obtain ks m where a: "a = (ks, m)" by (cases a)
  show ?case
  proof (cases i)
    case 0
    with Cons.prems a show ?thesis by simp
  next
    case (Suc i')
    have "\<not> any_in ks low" using Cons.prems(3) Suc a by auto
    moreover have "first_match tbl low = Some (snd (tbl ! i'))"
    proof (rule Cons.IH)
      show "i' < length tbl" using Cons.prems(1) Suc by simp
      show "any_in (fst (tbl ! i')) low" using Cons.prems(2) Suc by simp
      show "\<forall>j<i'. \<not> any_in (fst (tbl ! j)) low" using Cons.prems(3) Suc by auto
    qed
    ultimately show ?thesis using a Suc by simp
  qed
qed

lemma first_match_None: "first_match tbl low = None \<longleftrightarrow> (\<forall>x \<in> set tbl. \<not> any_in (fst x) low)"
  by (induction tbl low rule: first_match.induct) auto

lemma connection_core:
  assumes "map ascii_lower_cp v = connection_timed_out_low"
  shows "v \<noteq> []" "\<not> py_isspace (hd v)" "\<not> py_isspace (last v)" "\<forall>c \<in> set v. c < 128"
proof -
  show ne: "v \<noteq> []" using assms by (auto simp: connection_timed_out_low_def)
  have small: "\<And>c. ascii_lower_cp c < 128 \<Longrightarrow> c < 128"
    by (simp add: ascii_lower_cp_def split: if_splits)
  have "\<forall>c \<in> set (map ascii_lower_cp v). c < 128"
    unfolding assms by (simp add: connection_timed_out_low_def)
  then show all: "\<forall>c \<in> set v. c < 128" using small by auto
  have "ascii_lower_cp (hd v) = hd (map ascii_lower_cp v)" using ne by (simp add: hd_map)
  also have "\<dots> = 99" unfolding assms by (simp add: connection_timed_out_low_def)
  finally show "\<not> py_isspace (hd v)"
    by (auto simp: ascii_lower_cp_def py_isspace_def split: if_splits)
  have "ascii_lower_cp (last v) = last (map ascii_lower_cp v)" using ne by (simp add: last_map)
  also have "\<dots> = 115" unfolding assms by (simp add: connection_timed_out_low_def)
  finally show "\<not> py_isspace (last v)"
    by (auto simp: ascii_lower_cp_def py_isspace_def split: if_splits)
qed

lemma connection_has_timed_out: "any_in pats_timeout (p @ connection_timed_out_low @ s)"
proof -
  have "connection_timed_out_low = [99, 111, 110, 110, 101, 99, 116, 105, 111, 110, 32] @ [116, 105, 109, 101, 100, 32, 111, 117, 116] @ [32, 97, 102, 116, 101, 114, 32, 51, 48, 115]"
    by (simp add: connection_timed_out_low_def)
  then have "p @ connection_timed_out_low @ s = (p @ [99, 111, 110, 110, 101, 99, 116, 105, 111, 110, 32]) @ [116, 105, 109, 101, 100, 32, 111, 117, 116] @ ([32, 97, 102, 116, 101, 114, 32, 51, 48, 115] @ s)"
    by simp
  then have "\<exists>p' r. p @ connection_timed_out_low @ s = p' @ [116, 105, 109, 101, 100, 32, 111, 117, 116] @ r"
    by blast
  then show ?thesis
    by (simp add: any_in_iff pats_timeout_def)
qed

lemma connection_timeout:
  assumes lc: "lower_contract lower" and v: "map ascii_lower_cp v = connection_timed_out_low"
  shows "simplify_for_teacher lower (Some (p @ v @ s)) = msg_timeout"
proof -
  note core = connection_core[OF v]
  obtain p1 s1 where 1: "strip (p @ v @ s) = p1 @ v @ s1"
    using strip_keeps_core[OF core(1,2,3)] by blast
  obtain p2 s2 where 2: "lower (p1 @ v @ s1) = p2 @ map ascii_lower_cp v @ s2"
    using lc core(4) unfolding lower_contract_def by blast
  have "any_in pats_timeout (lower (strip (p @ v @ s)))"
    unfolding 1 2 v by (rule connection_has_timed_out)
  then show ?thesis by (simp add: simplify_for_teacher_def)
qed

lemma quota_example_strip: "strip [72, 84, 84, 80, 32, 52, 48, 51, 32, 81, 85, 79, 84, 65] = [72, 84, 84, 80, 32, 52, 48, 51, 32, 81, 85, 79, 84, 65]"
  by (simp add: strip_def py_isspace_def)

lemma quota_example_lower: "ascii_lower [72, 84, 84, 80, 32, 52, 48, 51, 32, 81, 85, 79, 84, 65] = [104, 116, 116, 112, 32, 52, 48, 51, 32, 113, 117, 111, 116, 97]"
  by (simp add: ascii_lower_def ascii_lower_cp_def)

lemma quota_example_no_timeout: "\<not> any_in pats_timeout [104, 116, 116, 112, 32, 52, 48, 51, 32, 113, 117, 111, 116, 97]"
  by (simp add: any_in_def pats_timeout_def)

lemma quota_example_no_auth: "\<not> any_in pats_auth [104, 116, 116, 112, 32, 52, 48, 51, 32, 113, 117, 111, 116, 97]"
  by (simp add: any_in_def pats_auth_def)

lemma quota_example_quota: "any_in pats_quota [104, 116, 116, 112, 32, 52, 48, 51, 32, 113, 117, 111, 116, 97]"
  by (simp add: any_in_def pats_quota_def)

lemma boom_strip: "strip [32, 98, 111, 111, 109, 32] = [98, 111, 111, 109]"
  by (simp add: strip_def py_isspace_def)

lemma boom_lower: "ascii_lower [98, 111, 111, 109] = [98, 111, 111, 109]"
  by (simp add: ascii_lower_def ascii_lower_cp_def)

lemma boom_no_match: "\<forall>x \<in> set classifier_table. \<not> any_in (fst x) [98, 111, 111, 109]"
  by (simp add: classifier_table_def any_in_def pats_timeout_def pats_auth_def pats_quota_def
      pats_rate_limit_def pats_upstream_def pats_file_locked_def)

lemma quota_example_first:
  "2 < length classifier_table \<and>
   any_in (fst (classifier_table ! 2)) [104, 116, 116, 112, 32, 52, 48, 51, 32, 113, 117, 111, 116, 97] \<and>
   (\<forall>j < 2. \<not> any_in (fst (classifier_table ! j)) [104, 116, 116, 112, 32, 52, 48, 51, 32, 113, 117, 111, 116, 97])"
proof (intro conjI allI impI)
  show "2 < length classifier_table" by (simp add: classifier_table_def)
  have "classifier_table ! 2 = (pats_quota, msg_quota)" by (simp add: classifier_table_def)
  then show "any_in (fst (classifier_table ! 2)) [104, 116, 116, 112, 32, 52, 48, 51, 32, 113, 117, 111, 116, 97]"
    using quota_example_quota by simp
  fix j :: nat assume "j < 2"
  then consider "j = 0" | "j = 1" by linarith
  then show "\<not> any_in (fst (classifier_table ! j)) [104, 116, 116, 112, 32, 52, 48, 51, 32, 113, 117, 111, 116, 97]"
  proof cases
    case 1
    then show ?thesis using quota_example_no_timeout by (simp add: classifier_table_def)
  next
    case 2
    then show ?thesis using quota_example_no_auth by (simp add: classifier_table_def)
  qed
qed

lemma connection_upper_lower: "map ascii_lower_cp [67, 79, 78, 78, 69, 67, 84, 73, 79, 78, 32, 84, 73, 77, 69, 68, 32,
             79, 85, 84, 32, 65, 70, 84, 69, 82, 32, 51, 48, 83] = connection_timed_out_low"
  by (simp add: ascii_lower_cp_def connection_timed_out_low_def)

section \<open>The error classifier: theorems\<close>

text \<open>
  Claim C4, amended. The classifier is a function of the message alone (and of the runtime's
  \<open>lower\<close>): it strips the message, lowers it, and reads the table of pattern sets top to
  bottom in the order timeout, invalid key, quota or forbidden, rate limit, upstream
  unavailable, file locked. A pattern set matches when one of its patterns occurs in the
  lowered message as a contiguous run, and the first matching set gives the result, whatever
  later sets match. When no set matches and the stripped message is not empty, the result is
  the prefix followed by the first 80 characters of the stripped message, with the ellipsis
  added exactly when the message is longer than 80, at most 87 characters in all. When no set
  matches and the stripped message is empty, the result is the fixed sentence for "no reason
  received" instead. With a runtime that meets \<open>lower_contract\<close>, every spelling of
  "Connection timed out after 30s" in upper and lower case, between any two strings, gives
  the timeout sentence.
\<close>

theorem classifier_first_match_wins:
  "(let t = strip (case message of None \<Rightarrow> [] | Some s \<Rightarrow> s); low = lower t in
      simplify_for_teacher lower message =
        (case first_match classifier_table low of
           Some m \<Rightarrow> m
         | None \<Rightarrow> if t = [] then msg_no_reason else echo t) \<and>
      (\<forall>i < length classifier_table.
         any_in (fst (classifier_table ! i)) low \<and>
         (\<forall>j < i. \<not> any_in (fst (classifier_table ! j)) low) \<longrightarrow>
         simplify_for_teacher lower message = snd (classifier_table ! i)) \<and>
      (\<forall>ks. any_in ks low \<longleftrightarrow> (\<exists>k \<in> set ks. \<exists>p r. low = p @ k @ r)) \<and>
      ((\<forall>x \<in> set classifier_table. \<not> any_in (fst x) low) \<and> t \<noteq> [] \<longrightarrow>
         simplify_for_teacher lower message =
           msg_prefix @ take 80 t @ (if 80 < length t then ellipsis else []) \<and>
         length (simplify_for_teacher lower message) \<le> 87)) \<and>
   (lower_contract lower \<longrightarrow>
      (\<forall>p v s. map ascii_lower_cp v = connection_timed_out_low \<longrightarrow>
         simplify_for_teacher lower (Some (p @ v @ s)) = msg_timeout))"
proof -
  define t where "t = strip (case message of None \<Rightarrow> [] | Some s \<Rightarrow> s)"
  define low where "low = lower t"
  have tab: "simplify_for_teacher lower message =
           (case first_match classifier_table low of
              Some m \<Rightarrow> m
            | None \<Rightarrow> if t = [] then msg_no_reason else echo t)"
    unfolding t_def low_def by (simp add: simplify_table Let_def)
  have win: "\<forall>i < length classifier_table.
           any_in (fst (classifier_table ! i)) low \<and>
           (\<forall>j < i. \<not> any_in (fst (classifier_table ! j)) low) \<longrightarrow>
           simplify_for_teacher lower message = snd (classifier_table ! i)"
    using first_match_wins[of _ classifier_table low] by (simp add: tab)
  have sub: "\<forall>ks. any_in ks low \<longleftrightarrow> (\<exists>k \<in> set ks. \<exists>p r. low = p @ k @ r)"
    by (simp add: any_in_iff)
  have fall: "(\<forall>x \<in> set classifier_table. \<not> any_in (fst x) low) \<and> t \<noteq> [] \<longrightarrow>
           simplify_for_teacher lower message =
             msg_prefix @ take 80 t @ (if 80 < length t then ellipsis else []) \<and>
           length (simplify_for_teacher lower message) \<le> 87"
  proof (intro impI, elim conjE)
    assume a: "\<forall>x \<in> set classifier_table. \<not> any_in (fst x) low" and ne: "t \<noteq> []"
    from a have "first_match classifier_table low = None" by (simp add: first_match_None)
    then have "simplify_for_teacher lower message = echo t" using ne by (simp add: tab)
    then show "simplify_for_teacher lower message =
             msg_prefix @ take 80 t @ (if 80 < length t then ellipsis else []) \<and>
           length (simplify_for_teacher lower message) \<le> 87"
      using length_echo[of t] by (simp add: echo_def)
  qed
  have conn: "lower_contract lower \<longrightarrow>
           (\<forall>p v s. map ascii_lower_cp v = connection_timed_out_low \<longrightarrow>
              simplify_for_teacher lower (Some (p @ v @ s)) = msg_timeout)"
    using connection_timeout by blast
  from tab win sub fall conn show ?thesis
    unfolding Let_def t_def[symmetric] low_def[symmetric] by blast
qed

text \<open>
  The theorem with the ASCII runtime at three messages: "Err: CONNECTION TIMED OUT AFTER 30S!"
  followed by a line feed (timeout, by the last part), "HTTP 403 QUOTA" (the third entry
  matches and the two before it do not), and " boom " (no entry matches: the echo).
\<close>

theorem classifier_first_match_wins_witness:
  "simplify_for_teacher ascii_lower
     (Some ([69, 114, 114, 58, 32] @
            [67, 79, 78, 78, 69, 67, 84, 73, 79, 78, 32, 84, 73, 77, 69, 68, 32, 79, 85, 84, 32,
             65, 70, 84, 69, 82, 32, 51, 48, 83] @ [33, 10])) = msg_timeout \<and>
   simplify_for_teacher ascii_lower (Some [72, 84, 84, 80, 32, 52, 48, 51, 32, 81, 85, 79, 84, 65])
     = msg_quota \<and>
   simplify_for_teacher ascii_lower (Some [32, 98, 111, 111, 109, 32])
     = msg_prefix @ [98, 111, 111, 109]"
proof -
  have a: "simplify_for_teacher ascii_lower
     (Some ([69, 114, 114, 58, 32] @
            [67, 79, 78, 78, 69, 67, 84, 73, 79, 78, 32, 84, 73, 77, 69, 68, 32, 79, 85, 84, 32,
             65, 70, 84, 69, 82, 32, 51, 48, 83] @ [33, 10])) = msg_timeout"
  proof -
    have "lower_contract ascii_lower \<longrightarrow>
        (\<forall>p v s. map ascii_lower_cp v = connection_timed_out_low \<longrightarrow>
           simplify_for_teacher ascii_lower (Some (p @ v @ s)) = msg_timeout)"
      by (rule conjunct2[OF classifier_first_match_wins[of None ascii_lower]])
    then have h: "\<forall>p v s. map ascii_lower_cp v = connection_timed_out_low \<longrightarrow>
           simplify_for_teacher ascii_lower (Some (p @ v @ s)) = msg_timeout"
      using ascii_lower_contract by (rule mp)
    show ?thesis by (rule h[rule_format, OF connection_upper_lower])
  qed
  have b: "simplify_for_teacher ascii_lower (Some [72, 84, 84, 80, 32, 52, 48, 51, 32, 81, 85, 79, 84, 65])
     = msg_quota"
  proof -
    let ?Q = "[72, 84, 84, 80, 32, 52, 48, 51, 32, 81, 85, 79, 84, 65] :: pystr"
    let ?L = "[104, 116, 116, 112, 32, 52, 48, 51, 32, 113, 117, 111, 116, 97] :: pystr"
    have L: "ascii_lower (strip (case Some ?Q of None \<Rightarrow> [] | Some s \<Rightarrow> s)) = ?L"
      by (simp only: option.case quota_example_strip quota_example_lower)
    have B: "\<forall>i < length classifier_table.
           any_in (fst (classifier_table ! i)) ?L \<and>
           (\<forall>j < i. \<not> any_in (fst (classifier_table ! j)) ?L) \<longrightarrow>
           simplify_for_teacher ascii_lower (Some ?Q) = snd (classifier_table ! i)"
      using classifier_first_match_wins[of "Some ?Q" ascii_lower]
      unfolding Let_def L by (elim conjE)
    have "simplify_for_teacher ascii_lower (Some ?Q) = snd (classifier_table ! 2)"
      by (rule B[rule_format, OF conjunct1[OF quota_example_first] conjunct2[OF quota_example_first]])
    then show ?thesis by (simp add: classifier_table_def)
  qed
  have c: "simplify_for_teacher ascii_lower (Some [32, 98, 111, 111, 109, 32])
     = msg_prefix @ [98, 111, 111, 109]"
  proof -
    let ?Q = "[32, 98, 111, 111, 109, 32] :: pystr"
    let ?L = "[98, 111, 111, 109] :: pystr"
    have S: "strip (case Some ?Q of None \<Rightarrow> [] | Some s \<Rightarrow> s) = ?L"
      by (simp only: option.case boom_strip)
    have D: "(\<forall>x \<in> set classifier_table. \<not> any_in (fst x) ?L) \<and> ?L \<noteq> [] \<longrightarrow>
           simplify_for_teacher ascii_lower (Some ?Q) =
             msg_prefix @ take 80 ?L @ (if 80 < length ?L then ellipsis else []) \<and>
           length (simplify_for_teacher ascii_lower (Some ?Q)) \<le> 87"
      using classifier_first_match_wins[of "Some ?Q" ascii_lower]
      unfolding Let_def S boom_lower by (elim conjE)
    have ne: "?L \<noteq> []" by simp
    have "simplify_for_teacher ascii_lower (Some ?Q) =
             msg_prefix @ take 80 ?L @ (if 80 < length ?L then ellipsis else [])"
      by (rule conjunct1[OF D[rule_format, OF conjI[OF boom_no_match ne]]])
    then show ?thesis by simp
  qed
  show ?thesis by (intro conjI) (rule a, rule b, rule c)
qed

text \<open>
  Claim C4 as stated fails at the empty message: no pattern matches, and the result is not
  the echo of the message.
\<close>

theorem classifier_echo_counterexample:
  "first_match classifier_table (ascii_lower (strip [])) = None \<and>
   simplify_for_teacher ascii_lower (Some []) \<noteq> echo (strip [])"
  by (simp add: simplify_for_teacher_def strip_def ascii_lower_def any_in_def
      classifier_table_def pats_timeout_def pats_auth_def pats_quota_def pats_rate_limit_def
      pats_upstream_def pats_file_locked_def echo_def msg_prefix_def msg_no_reason_def)

text \<open>
  Claim C10. For every input that is empty or consists only of whitespace, the classifier
  returns the fixed sentence for "no reason received": \<open>strip\<close> leaves the empty string, no
  pattern occurs in it, and the test \<open>if not t\<close> answers before the echo. That sentence is
  none of the six category sentences and is not an echo of any message. The one fact used
  about the runtime is that \<open>"".lower()\<close> is \<open>""\<close>.
\<close>

theorem blank_message_no_reason:
  assumes "lower [] = []" and "\<forall>c \<in> set s. py_isspace c"
  shows "simplify_for_teacher lower (Some s) = msg_no_reason \<and>
         msg_no_reason \<notin> snd ` set classifier_table \<and>
         (\<forall>t. msg_no_reason \<noteq> echo t)"
proof -
  have "strip s = []" using assms(2) by (rule strip_all_space)
  moreover have "first_match classifier_table [] = None"
    by (simp add: classifier_table_def any_in_def pats_timeout_def pats_auth_def pats_quota_def
        pats_rate_limit_def pats_upstream_def pats_file_locked_def)
  ultimately have "simplify_for_teacher lower (Some s) = msg_no_reason"
    using assms(1) by (simp add: simplify_table)
  then show ?thesis
    using no_reason_not_category echo_not_no_reason by metis
qed

text \<open>The theorem at a message of four blanks (space, tab, U+3000, line feed), with the ASCII runtime.\<close>

theorem blank_message_no_reason_witness:
  "simplify_for_teacher ascii_lower (Some [32, 9, 12288, 10]) = msg_no_reason \<and>
   msg_no_reason \<noteq> echo (strip [32, 9, 12288, 10])"
  using blank_message_no_reason[of ascii_lower "[32, 9, 12288, 10]"]
  by (simp add: ascii_lower_def py_isspace_def)

section \<open>The native hook: theorems\<close>

lemma hook_try_handle:
  "hook_handle (fst (hook_try he ev h)) = hook_handle h \<and>
   thread (fst (hook_try he ev h)) = thread h \<and>
   enabled (fst (hook_try he ev h)) = enabled h \<and>
   install_calls (fst (hook_try he ev h)) = install_calls h"
  by (simp add: hook_try_def split: option.split)

lemma hook_proc_state: "fst (snd (hook_proc he ev h)) = fst (hook_try he ev h)"
  by (cases "hook_try he ev h" rule: prod_cases3) (simp add: hook_proc_def split: option.split)

lemma hook_proc_esc:
  assumes "nCode ev = HC_ACTION" "wParam ev = WM_KEYDOWN \<or> wParam ev = WM_SYSKEYDOWN"
    "vkCode ev = VK_ESCAPE" "\<not> cast_raises he" "should_swallow he = Some running"
    "\<not> on_esc_raises he"
  shows "hook_proc he ev h =
     (if enabled h \<and> running then
        if 0.25 \<le> now he - last_hit_ts h then (Swallow, h\<lparr>last_hit_ts := now he\<rparr>, 1)
        else (Swallow, h, 0)
      else (CallNext ev, h, 0))"
  using assms by (auto simp: hook_proc_def hook_try_def)

lemma hook_proc_other:
  assumes "\<not> (nCode ev = HC_ACTION \<and> (wParam ev = WM_KEYDOWN \<or> wParam ev = WM_SYSKEYDOWN) \<and>
    vkCode ev = VK_ESCAPE)"
  shows "hook_proc he ev h = (CallNext ev, h, 0)"
  using assms by (auto simp: hook_proc_def hook_try_def)

lemma hook_try_raises_iff:
  "snd (snd (hook_try he ev h)) = None \<longleftrightarrow>
     nCode ev = HC_ACTION \<and> (wParam ev = WM_KEYDOWN \<or> wParam ev = WM_SYSKEYDOWN) \<and>
     (cast_raises he \<or>
      (vkCode ev = VK_ESCAPE \<and> enabled h \<and>
       (should_swallow he = None \<or>
        (should_swallow he = Some True \<and> 0.25 \<le> now he - last_hit_ts h \<and> on_esc_raises he))))"
  by (auto simp: hook_try_def split: option.splits)

text \<open>
  Claim C5, amended. For an Esc key-down event that reaches the callback, with no call inside
  the callback raising: if the interceptor is armed and the worker is running, the event is
  swallowed, whatever the time; one stop request is posted and the time of the trigger is
  recorded when at least 0.25 seconds have passed since the last accepted trigger, and no
  stop request is posted otherwise. If the interceptor is not armed or the worker is not
  running, the event is handed on unchanged, nothing is posted and the state stays as it is.
  So, armed and running, with the first trigger accepted: two triggers 0.1 seconds apart post
  one stop request, two triggers 0.3 seconds apart post two, and in general the second
  trigger posts a request exactly when it comes at least 0.25 seconds after the first.
\<close>

theorem hook_proc_esc_keydown:
  assumes ev: "nCode ev = HC_ACTION" "wParam ev = WM_KEYDOWN \<or> wParam ev = WM_SYSKEYDOWN"
      "vkCode ev = VK_ESCAPE"
    and quiet: "\<not> cast_raises he" "should_swallow he = Some running" "\<not> on_esc_raises he"
  shows "(enabled h \<and> running \<and> 0.25 \<le> now he - last_hit_ts h \<longrightarrow>
            hook_proc he ev h = (Swallow, h\<lparr>last_hit_ts := now he\<rparr>, 1)) \<and>
         (enabled h \<and> running \<and> now he - last_hit_ts h < 0.25 \<longrightarrow>
            hook_proc he ev h = (Swallow, h, 0)) \<and>
         (\<not> (enabled h \<and> running) \<longrightarrow> hook_proc he ev h = (CallNext ev, h, 0)) \<and>
         (enabled h \<and> running \<and> 0.25 \<le> t - last_hit_ts h \<longrightarrow>
            two_triggers he t (t + 0.1) ev h = 1 \<and>
            two_triggers he t (t + 0.3) ev h = 2 \<and>
            (\<forall>u. two_triggers he t u ev h = (if 0.25 \<le> u - t then 2 else 1)))"
proof -
  have two: "two_triggers he t u ev h = (if 0.25 \<le> u - t then 2 else 1)"
    if a: "enabled h" "running" "0.25 \<le> t - last_hit_ts h" for u
  proof -
    have 1: "hook_proc (he\<lparr>now := t\<rparr>) ev h = (Swallow, h\<lparr>last_hit_ts := t\<rparr>, 1)"
      using hook_proc_esc[of ev "he\<lparr>now := t\<rparr>" running h] ev quiet a by simp
    have 2: "hook_proc (he\<lparr>now := u\<rparr>) ev (h\<lparr>last_hit_ts := t\<rparr>) =
        (if 0.25 \<le> u - t then (Swallow, h\<lparr>last_hit_ts := u\<rparr>, 1)
         else (Swallow, h\<lparr>last_hit_ts := t\<rparr>, 0))"
      using hook_proc_esc[of ev "he\<lparr>now := u\<rparr>" running "h\<lparr>last_hit_ts := t\<rparr>"] ev quiet a
      by simp
    show ?thesis by (simp add: two_triggers_def 1 2)
  qed
  have s: "hook_proc he ev h =
     (if enabled h \<and> running then
        if 0.25 \<le> now he - last_hit_ts h then (Swallow, h\<lparr>last_hit_ts := now he\<rparr>, 1)
        else (Swallow, h, 0)
      else (CallNext ev, h, 0))"
    using hook_proc_esc[OF ev quiet] .
  have p1: "enabled h \<and> running \<and> 0.25 \<le> now he - last_hit_ts h \<longrightarrow>
            hook_proc he ev h = (Swallow, h\<lparr>last_hit_ts := now he\<rparr>, 1)"
    by (simp add: s)
  have p2: "enabled h \<and> running \<and> now he - last_hit_ts h < 0.25 \<longrightarrow>
            hook_proc he ev h = (Swallow, h, 0)"
    by (simp add: s)
  have p3: "\<not> (enabled h \<and> running) \<longrightarrow> hook_proc he ev h = (CallNext ev, h, 0)"
    by (simp add: s)
  have p4: "enabled h \<and> running \<and> 0.25 \<le> t - last_hit_ts h \<longrightarrow>
            two_triggers he t (t + 0.1) ev h = 1 \<and>
            two_triggers he t (t + 0.3) ev h = 2 \<and>
            (\<forall>u. two_triggers he t u ev h = (if 0.25 \<le> u - t then 2 else 1))"
    by (simp add: two)
  from p1 p2 p3 p4 show ?thesis by (intro conjI)
qed

text \<open>
  The theorem at an armed hook with a running worker: an accepted trigger at time 100, a
  trigger 0.1 seconds after an accepted one, a trigger at a hook that is not armed, and the
  two pairs of triggers.
\<close>

theorem hook_proc_esc_keydown_witness:
  "hook_proc (quiet_call\<lparr>now := 100\<rparr>) esc_keydown (hook_init\<lparr>enabled := True\<rparr>) =
     (Swallow, hook_init\<lparr>enabled := True, last_hit_ts := 100\<rparr>, 1) \<and>
   hook_proc (quiet_call\<lparr>now := 100.1\<rparr>) esc_keydown
       (hook_init\<lparr>enabled := True, last_hit_ts := 100\<rparr>) =
     (Swallow, hook_init\<lparr>enabled := True, last_hit_ts := 100\<rparr>, 0) \<and>
   hook_proc (quiet_call\<lparr>now := 100\<rparr>) esc_keydown hook_init = (CallNext esc_keydown, hook_init, 0) \<and>
   two_triggers quiet_call 100 (100 + 0.1) esc_keydown (hook_init\<lparr>enabled := True\<rparr>) = 1 \<and>
   two_triggers quiet_call 100 (100 + 0.3) esc_keydown (hook_init\<lparr>enabled := True\<rparr>) = 2"
proof -
  have ev: "nCode esc_keydown = HC_ACTION"
    "wParam esc_keydown = WM_KEYDOWN \<or> wParam esc_keydown = WM_SYSKEYDOWN"
    "vkCode esc_keydown = VK_ESCAPE"
    by (simp_all add: esc_keydown_def)
  have q: "\<not> cast_raises (quiet_call\<lparr>now := x\<rparr>)" "should_swallow (quiet_call\<lparr>now := x\<rparr>) = Some True"
    "\<not> on_esc_raises (quiet_call\<lparr>now := x\<rparr>)" for x
    by (simp_all add: quiet_call_def)
  have q0: "\<not> cast_raises quiet_call" "should_swallow quiet_call = Some True"
    "\<not> on_esc_raises quiet_call"
    by (simp_all add: quiet_call_def)
  have a: "hook_proc (quiet_call\<lparr>now := 100\<rparr>) esc_keydown (hook_init\<lparr>enabled := True\<rparr>) =
     (Swallow, hook_init\<lparr>enabled := True, last_hit_ts := 100\<rparr>, 1)"
    using hook_proc_esc_keydown[where ev = esc_keydown and he = "quiet_call\<lparr>now := 100\<rparr>"
          and running = True and h = "hook_init\<lparr>enabled := True\<rparr>" and t = 0, OF ev q]
    by (simp add: hook_init_def)
  have b: "hook_proc (quiet_call\<lparr>now := 100.1\<rparr>) esc_keydown
       (hook_init\<lparr>enabled := True, last_hit_ts := 100\<rparr>) =
     (Swallow, hook_init\<lparr>enabled := True, last_hit_ts := 100\<rparr>, 0)"
    using hook_proc_esc_keydown[where ev = esc_keydown and he = "quiet_call\<lparr>now := 100.1\<rparr>"
          and running = True and h = "hook_init\<lparr>enabled := True, last_hit_ts := 100\<rparr>"
          and t = 0, OF ev q]
    by (simp add: hook_init_def)
  have c: "hook_proc (quiet_call\<lparr>now := 100\<rparr>) esc_keydown hook_init = (CallNext esc_keydown, hook_init, 0)"
    using hook_proc_esc_keydown[where ev = esc_keydown and he = "quiet_call\<lparr>now := 100\<rparr>"
          and running = True and h = hook_init and t = 0, OF ev q]
    by (simp add: hook_init_def)
  have d: "two_triggers quiet_call 100 (100 + 0.1) esc_keydown (hook_init\<lparr>enabled := True\<rparr>) = 1 \<and>
   two_triggers quiet_call 100 (100 + 0.3) esc_keydown (hook_init\<lparr>enabled := True\<rparr>) = 2"
    using hook_proc_esc_keydown[where ev = esc_keydown and he = quiet_call
          and running = True and h = "hook_init\<lparr>enabled := True\<rparr>" and t = 100, OF ev q0]
    by (simp add: hook_init_def)
  from a b c d show ?thesis by (intro conjI) simp_all
qed

text \<open>
  Claim C5 as stated says that the event is forwarded in every case but "armed, recognised,
  250ms elapsed". With the hook armed, the worker running and only 0.1 seconds since the last
  accepted trigger, the callback does not forward the event: it returns 1.
\<close>

theorem hook_proc_forward_counterexample:
  "\<not> (0.25 \<le> now (quiet_call\<lparr>now := 100.1\<rparr>) -
          last_hit_ts (hook_init\<lparr>enabled := True, last_hit_ts := 100\<rparr>)) \<and>
   fst (hook_proc (quiet_call\<lparr>now := 100.1\<rparr>) esc_keydown
          (hook_init\<lparr>enabled := True, last_hit_ts := 100\<rparr>)) \<noteq> CallNext esc_keydown"
  by (simp add: hook_proc_def hook_try_def quiet_call_def esc_keydown_def hook_init_def
      HC_ACTION_def WM_KEYDOWN_def VK_ESCAPE_def)

text \<open>
  Claim C9. When an exception leaves the body of the callback (reading the event structure,
  \<open>should_swallow()\<close> or \<open>on_esc()\<close> raised; \<open>hook_try_raises_iff\<close> says when), the handler
  returns the result of
  \<open>CallNextHookEx\<close> on the arguments received: the event is handed on to the next handler and
  nothing is raised to the caller. No call of the callback, faulty or not, changes the hook
  handle, the thread or the armed flag: the hook stays installed.
\<close>

theorem hook_proc_catches:
  "(snd (snd (hook_try he ev h)) = None \<longrightarrow> fst (hook_proc he ev h) = CallNext ev) \<and>
   hook_handle (fst (snd (hook_proc he ev h))) = hook_handle h \<and>
   thread (fst (snd (hook_proc he ev h))) = thread h \<and>
   enabled (fst (snd (hook_proc he ev h))) = enabled h"
proof -
  have "snd (snd (hook_try he ev h)) = None \<longrightarrow> fst (hook_proc he ev h) = CallNext ev"
    by (cases "hook_try he ev h" rule: prod_cases3) (simp add: hook_proc_def)
  then show ?thesis by (simp add: hook_proc_state hook_try_handle)
qed

text \<open>
  The theorem at an armed, installed hook whose \<open>on_esc()\<close> raises on an accepted Esc.
\<close>

theorem hook_proc_catches_witness:
  "snd (snd (hook_try (quiet_call\<lparr>on_esc_raises := True, now := 100\<rparr>) esc_keydown
      (hook_init\<lparr>enabled := True, hook_handle := Some 1, thread := True\<rparr>))) = None \<and>
   fst (hook_proc (quiet_call\<lparr>on_esc_raises := True, now := 100\<rparr>) esc_keydown
      (hook_init\<lparr>enabled := True, hook_handle := Some 1, thread := True\<rparr>)) = CallNext esc_keydown \<and>
   hook_handle (fst (snd (hook_proc (quiet_call\<lparr>on_esc_raises := True, now := 100\<rparr>) esc_keydown
      (hook_init\<lparr>enabled := True, hook_handle := Some 1, thread := True\<rparr>)))) = Some 1"
proof -
  have r: "snd (snd (hook_try (quiet_call\<lparr>on_esc_raises := True, now := 100\<rparr>) esc_keydown
      (hook_init\<lparr>enabled := True, hook_handle := Some 1, thread := True\<rparr>))) = None"
    by (simp add: hook_try_def quiet_call_def esc_keydown_def hook_init_def)
  show ?thesis
    using r hook_proc_catches[of "quiet_call\<lparr>on_esc_raises := True, now := 100\<rparr>" esc_keydown
        "hook_init\<lparr>enabled := True, hook_handle := Some 1, thread := True\<rparr>"]
    by (simp add: hook_init_def)
qed

text \<open>
  Claim C7. On Windows, two calls of \<open>start()\<close> in a row both return \<open>True\<close>; the second call
  changes nothing, and \<open>SetWindowsHookExW\<close> is called once by the two together when no hook
  thread existed before (and not at all when one did). Disabling an interceptor that is
  already disabled (flag off, no hot key registered) leaves the state as it is and removes
  no hot key; it has no error result. Disabling twice is the same as disabling once.
\<close>

theorem start_twice_disable_idle:
  "(win32 e \<longrightarrow>
      (case start e h of
         (r1, h1) \<Rightarrow>
           (case start e h1 of
              (r2, h2) \<Rightarrow>
                r1 \<and> r2 \<and> h2 = h1 \<and> thread h2 \<and>
                install_calls h2 = install_calls h + (if thread h then 0 else 1)))) \<and>
   (\<not> enabled (win_exclusive_esc st) \<and> exclusive_esc_hotkey_id st = None \<longrightarrow>
      disable_exclusive_esc e st = (st, [SetEnabled False])) \<and>
   fst (disable_exclusive_esc e (fst (disable_exclusive_esc e st))) =
     fst (disable_exclusive_esc e st)"
  by (auto simp: start_def disable_exclusive_esc_def set_enabled_def Let_def split: option.split)

text \<open>The theorem at the initial state of the process on the Windows machine.\<close>

theorem start_twice_disable_idle_witness:
  "(case start windows_env hook_init of
      (r1, h1) \<Rightarrow>
        (case start windows_env h1 of
           (r2, h2) \<Rightarrow> r1 \<and> r2 \<and> h2 = h1 \<and> install_calls h2 = 1 \<and> hook_handle h2 = Some 1)) \<and>
   disable_exclusive_esc windows_env app_init = (app_init, [SetEnabled False])"
  using start_twice_disable_idle[of windows_env hook_init app_init]
  by (simp add: windows_env_def hook_init_def app_init_def start_def)

section \<open>Facts about the handlers\<close>

text \<open>
  Each handler written without pattern matching on pairs, what each part contributes (no
  dialog, no \<open>set_enabled(True)\<close>, the hook object untouched), and the dialogs each handler and
  each signal shows. For the error handler: what it does when one of its three blocks ends it
  early and when none does, which block ends it for which message, and
  (\<open>reset_fault_falls_through\<close>) that a reset call that raises lets control go on to the
  later tests and, for a message that is no user stop, to the dialog.
\<close>

lemma disable_events:
  "\<exists>r. snd (disable_exclusive_esc e st) = SetEnabled False # r \<and> (\<forall>x \<in> set r. \<exists>hid. x = RemoveHotkey hid)"
  by (auto simp: disable_exclusive_esc_def Let_def split: option.split)

lemma disable_dialogs: "dialogs (snd (disable_exclusive_esc e st)) = []"
  by (simp add: disable_exclusive_esc_def dialogs_def Let_def split: option.split)

lemma disable_no_enable: "SetEnabled True \<notin> set (snd (disable_exclusive_esc e st))"
  by (simp add: disable_exclusive_esc_def Let_def split: option.split)

lemma disable_state:
  "win_exclusive_esc (fst (disable_exclusive_esc e st)) = (win_exclusive_esc st)\<lparr>enabled := False\<rparr>"
  "suppress_error_dialog_until (fst (disable_exclusive_esc e st)) = suppress_error_dialog_until st"
  "minimized (fst (disable_exclusive_esc e st)) = minimized st"
  by (simp_all add: disable_exclusive_esc_def set_enabled_def Let_def)

lemma disable_twice_events:
  "snd (disable_exclusive_esc e (fst (disable_exclusive_esc e st))) = [SetEnabled False] \<or>
   (\<not> keyboard_lib e \<and> exclusive_esc_hotkey_id st \<noteq> None)"
  by (auto simp: disable_exclusive_esc_def Let_def split: option.split)

lemma restore_window_facts:
  "dialogs (snd (restore_window st)) = []"
  "SetEnabled b \<notin> set (snd (restore_window st))"
  "win_exclusive_esc (fst (restore_window st)) = win_exclusive_esc st"
  "suppress_error_dialog_until (fst (restore_window st)) = suppress_error_dialog_until st"
  by (simp_all add: restore_window_def dialogs_def)

lemma show_normal_facts:
  "dialogs (snd (show_normal_if_minimized st)) = []"
  "SetEnabled b \<notin> set (snd (show_normal_if_minimized st))"
  "win_exclusive_esc (fst (show_normal_if_minimized st)) = win_exclusive_esc st"
  "suppress_error_dialog_until (fst (show_normal_if_minimized st)) = suppress_error_dialog_until st"
  by (simp_all add: show_normal_if_minimized_def dialogs_def)

lemma update_ui_facts:
  "dialogs (update_ui_state_if_present e) = []"
  "SetEnabled b \<notin> set (update_ui_state_if_present e)"
  by (simp_all add: update_ui_state_if_present_def dialogs_def)

lemma report_facts:
  "dialogs (snd (report_worker_error e arg st)) = []"
  "SetEnabled b \<notin> set (snd (report_worker_error e arg st))"
  "win_exclusive_esc (fst (report_worker_error e arg st)) = win_exclusive_esc st"
  "suppress_error_dialog_until (fst (report_worker_error e arg st)) = suppress_error_dialog_until st"
  by (simp_all add: report_worker_error_def dialogs_def show_normal_if_minimized_def
      update_ui_state_if_present_def split: prod.split)

lemma dialogs_append: "dialogs (xs @ ys) = dialogs xs @ dialogs ys"
  by (simp add: dialogs_def)

lemma dialogs_Nil: "dialogs [] = []"
  by (simp add: dialogs_def)

lemma dialogs_Cons: "dialogs (x # xs) = (if is_dialog x then x # dialogs xs else dialogs xs)"
  by (simp add: dialogs_def)

lemmas handler_facts = disable_dialogs disable_no_enable disable_state restore_window_facts
  show_normal_facts update_ui_facts report_facts dialogs_append dialogs_Cons dialogs_Nil

lemma show_completion_eq:
  "show_completion_notification e st =
     (fst (restore_window (fst (disable_exclusive_esc e st))),
      snd (disable_exclusive_esc e st) @ [OnWorkerFinished, ExecDialog CompletionDialog] @
      snd (restore_window (fst (disable_exclusive_esc e st))))"
  by (simp add: show_completion_notification_def split: prod.split)

lemma show_threshold_eq:
  "show_threshold_exceeded_notification e reason st =
     (let st1 = fst (disable_exclusive_esc e st); st2 = fst (report_worker_error e reason st1) in
      (fst (restore_window st2),
       snd (disable_exclusive_esc e st) @ snd (report_worker_error e reason st1) @
       [ExecDialog ThresholdDialog] @ snd (restore_window st2)))"
  by (simp add: show_threshold_exceeded_notification_def Let_def split: prod.split)

lemma show_manual_eq:
  "show_manual_intervention_notification e t message raw st =
     (let st1 = (fst (disable_exclusive_esc e st))\<lparr>suppress_error_dialog_until := t + 2\<rparr>;
          st2 = fst (show_normal_if_minimized st1) in
      (fst (restore_window st2),
       snd (disable_exclusive_esc e st) @ snd (show_normal_if_minimized st1) @
       update_ui_state_if_present e @ [ExecDialog (ManualDialog message raw)] @
       snd (restore_window st2)))"
  by (simp add: show_manual_intervention_notification_def Let_def split: prod.split)

lemma guarded_update_facts:
  "guarded_update_ui_state e r = Some ev \<Longrightarrow> dialogs ev = [] \<and> SetEnabled b \<notin> set ev"
  by (auto simp: guarded_update_ui_state_def update_ui_state_if_present_def dialogs_def
      split: if_splits)

lemma error_early_facts:
  assumes "error_early e t msg st = Some ev"
  shows "dialogs ev = []" and "SetEnabled b \<notin> set ev"
proof -
  from assms consider
      "error_window_block e t st = Some ev"
    | "error_review_block e msg = Some ev"
    | "error_stop_block e msg = Some ev"
    by (auto simp: error_early_def split: option.splits)
  then have "dialogs ev = [] \<and> SetEnabled b \<notin> set ev"
  proof cases
    case 1
    then show ?thesis
      using guarded_update_facts[of e "window_reset_raises e" ev b]
      by (simp add: error_window_block_def split: if_splits)
  next
    case 2
    then show ?thesis
      using guarded_update_facts[of e "review_reset_raises e" ev b]
      by (simp add: error_review_block_def split: if_splits)
  next
    case 3
    then show ?thesis
      using guarded_update_facts[of e "stop_reset_raises e" ev b]
      by (auto simp: error_stop_block_def dialogs_def split: if_splits)
  qed
  then show "dialogs ev = []" and "SetEnabled b \<notin> set ev" by simp_all
qed

lemma error_early_until:
  "suppress_error_dialog_until st' = suppress_error_dialog_until st \<Longrightarrow>
   error_early e t msg st' = error_early e t msg st"
  by (simp add: error_early_def error_window_block_def)

lemma show_error_early:
  assumes "error_early e t msg st = Some ev"
  shows "show_error_notification e t msg st =
     (fst (disable_exclusive_esc e st), snd (disable_exclusive_esc e st) @ ev)"
proof -
  have "error_early e t msg (fst (disable_exclusive_esc e st)) = Some ev"
    using assms error_early_until[of "fst (disable_exclusive_esc e st)" st e t msg]
    by (simp add: disable_state)
  then show ?thesis
    by (simp add: show_error_notification_def case_prod_beta)
qed

lemma show_error_late:
  assumes "error_early e t msg st = None"
  shows "show_error_notification e t msg st =
     (fst (restore_window (fst (report_worker_error e msg (fst (disable_exclusive_esc e st))))),
      snd (disable_exclusive_esc e st) @
      snd (report_worker_error e msg (fst (disable_exclusive_esc e st))) @
      [ExecDialog (ErrorDialog (simplify_for_teacher (str_lower e) (Some msg)))] @
      snd (restore_window (fst (report_worker_error e msg (fst (disable_exclusive_esc e st))))))"
proof -
  have "error_early e t msg (fst (disable_exclusive_esc e st)) = None"
    using assms error_early_until[of "fst (disable_exclusive_esc e st)" st e t msg]
    by (simp add: disable_state)
  then show ?thesis
    by (simp add: show_error_notification_def case_prod_beta)
qed

lemma deliver_eq:
  "deliver e t sig st =
     (case sig of
        Completed \<Rightarrow>
          (let st1 = fst (disable_exclusive_esc e st) in
           (fst (show_completion_notification e st1),
            snd (disable_exclusive_esc e st) @ snd (show_completion_notification e st1)))
      | Error m \<Rightarrow>
          (let st1 = fst (show_error_notification e t m st) in
           (fst (disable_exclusive_esc e st1),
            snd (show_error_notification e t m st) @ snd (disable_exclusive_esc e st1)))
      | ThresholdExceeded r \<Rightarrow>
          (let st1 = fst (show_threshold_exceeded_notification e r st) in
           (fst (disable_exclusive_esc e st1),
            snd (show_threshold_exceeded_notification e r st) @ snd (disable_exclusive_esc e st1)))
      | ManualIntervention m r \<Rightarrow>
          (let st1 = fst (show_manual_intervention_notification e t m r st) in
           (fst (disable_exclusive_esc e st1),
            snd (show_manual_intervention_notification e t m r st) @
            snd (disable_exclusive_esc e st1))))"
  by (simp add: deliver_def Let_def split: terminal_signal.split prod.split)

lemma show_completion_dialogs:
  "dialogs (snd (show_completion_notification e st)) = [ExecDialog CompletionDialog]"
  by (simp add: show_completion_eq handler_facts)

lemma show_threshold_dialogs:
  "dialogs (snd (show_threshold_exceeded_notification e r st)) = [ExecDialog ThresholdDialog]"
  by (simp add: show_threshold_eq Let_def handler_facts)

lemma show_manual_dialogs:
  "dialogs (snd (show_manual_intervention_notification e t m r st)) = [ExecDialog (ManualDialog m r)]"
  by (simp add: show_manual_eq Let_def handler_facts)

lemma show_error_dialogs:
  "dialogs (snd (show_error_notification e t msg st)) =
     (case error_early e t msg st of
        Some ev \<Rightarrow> []
      | None \<Rightarrow> [ExecDialog (ErrorDialog (simplify_for_teacher (str_lower e) (Some msg)))])"
proof (cases "error_early e t msg st")
  case None
  then show ?thesis by (simp add: show_error_late handler_facts)
next
  case (Some ev)
  then show ?thesis
    using error_early_facts(1)[OF Some] by (simp add: show_error_early handler_facts)
qed

lemma deliver_dialogs:
  "dialogs (snd (deliver e t sig st)) =
     (case sig of
        Completed \<Rightarrow> [ExecDialog CompletionDialog]
      | Error msg \<Rightarrow>
          (case error_early e t msg st of
             Some ev \<Rightarrow> []
           | None \<Rightarrow> [ExecDialog (ErrorDialog (simplify_for_teacher (str_lower e) (Some msg)))])
      | ThresholdExceeded r \<Rightarrow> [ExecDialog ThresholdDialog]
      | ManualIntervention m r \<Rightarrow> [ExecDialog (ManualDialog m r)])"
  by (simp add: deliver_eq Let_def dialogs_append disable_dialogs show_completion_dialogs
      show_threshold_dialogs show_manual_dialogs show_error_dialogs split: terminal_signal.split)

lemma show_error_head:
  "\<exists>rest. snd (show_error_notification e t m st) = SetEnabled False # rest"
proof -
  obtain r where r: "snd (disable_exclusive_esc e st) = SetEnabled False # r"
    using disable_events[of e st] by blast
  show ?thesis
    by (cases "error_early e t m st") (simp_all add: show_error_late show_error_early r)
qed

lemma handler_heads:
  "\<exists>rest. snd (show_completion_notification e st) = SetEnabled False # rest"
  "\<exists>rest. snd (show_error_notification e t m st) = SetEnabled False # rest"
  "\<exists>rest. snd (show_threshold_exceeded_notification e r st) = SetEnabled False # rest"
  "\<exists>rest. snd (show_manual_intervention_notification e t m r st) = SetEnabled False # rest"
proof -
  obtain d where d: "snd (disable_exclusive_esc e st) = SetEnabled False # d"
    using disable_events[of e st] by blast
  show "\<exists>rest. snd (show_completion_notification e st) = SetEnabled False # rest"
    by (simp add: show_completion_eq d)
  show "\<exists>rest. snd (show_error_notification e t m st) = SetEnabled False # rest"
    by (rule show_error_head)
  show "\<exists>rest. snd (show_threshold_exceeded_notification e r st) = SetEnabled False # rest"
    by (simp add: show_threshold_eq Let_def d)
  show "\<exists>rest. snd (show_manual_intervention_notification e t m r st) = SetEnabled False # rest"
    by (simp add: show_manual_eq Let_def d)
qed

lemma deliver_head: "\<exists>rest. snd (deliver e t sig st) = SetEnabled False # rest"
proof (cases sig)
  case Completed
  then show ?thesis using disable_events[of e st] by (auto simp: deliver_eq Let_def)
next
  case (Error m)
  then show ?thesis using handler_heads(2)[of e t m st] by (auto simp: deliver_eq Let_def)
next
  case (ThresholdExceeded r)
  then show ?thesis using handler_heads(3)[of e r st] by (auto simp: deliver_eq Let_def)
next
  case (ManualIntervention m r)
  then show ?thesis using handler_heads(4)[of e t m r st] by (auto simp: deliver_eq Let_def)
qed

lemma show_error_no_enable:
  "SetEnabled True \<notin> set (snd (show_error_notification e t m st))"
proof (cases "error_early e t m st")
  case None
  then show ?thesis by (simp add: show_error_late handler_facts)
next
  case (Some ev)
  then show ?thesis
    using error_early_facts(2)[OF Some, of True] by (simp add: show_error_early handler_facts)
qed

lemma show_error_disabled:
  "win_exclusive_esc (fst (show_error_notification e t m st)) =
     (win_exclusive_esc st)\<lparr>enabled := False\<rparr>"
  by (cases "error_early e t m st")
     (simp_all add: show_error_late show_error_early handler_facts)

lemma handler_no_enable:
  "SetEnabled True \<notin> set (snd (show_completion_notification e st))"
  "SetEnabled True \<notin> set (snd (show_error_notification e t m st))"
  "SetEnabled True \<notin> set (snd (show_threshold_exceeded_notification e r st))"
  "SetEnabled True \<notin> set (snd (show_manual_intervention_notification e t m r st))"
  by (simp_all add: show_completion_eq show_error_no_enable show_threshold_eq show_manual_eq
      Let_def handler_facts)

lemma deliver_no_enable: "SetEnabled True \<notin> set (snd (deliver e t sig st))"
  by (cases sig) (simp_all add: deliver_eq Let_def handler_no_enable disable_no_enable)

lemma deliver_disabled: "\<not> enabled (win_exclusive_esc (fst (deliver e t sig st)))"
  by (cases sig)
     (simp_all add: deliver_eq Let_def disable_state show_completion_eq restore_window_facts)

lemma completed_events:
  "snd (deliver windows_env 0 Completed app_init) =
     [SetEnabled False, SetEnabled False, OnWorkerFinished, ExecDialog CompletionDialog,
      RaiseWindow, ActivateWindow]"
  by (simp add: deliver_def show_completion_notification_def disable_exclusive_esc_def
      restore_window_def windows_env_def app_init_def Let_def)

lemma deliver_dialogs_count:
  "length (dialogs (snd (deliver e t sig st))) \<le> 1"
  "\<not> is_error sig \<longrightarrow> length (dialogs (snd (deliver e t sig st))) = 1"
proof -
  show "length (dialogs (snd (deliver e t sig st))) \<le> 1"
    by (cases sig) (simp_all add: deliver_dialogs split: option.split)
  show "\<not> is_error sig \<longrightarrow> length (dialogs (snd (deliver e t sig st))) = 1"
    by (cases sig) (simp_all add: deliver_dialogs)
qed

lemma run_signals_dialogs:
  "length (filter (\<lambda>x. \<not> is_error (snd x)) sigs) \<le> length (dialogs (snd (run_signals e sigs st))) \<and>
   length (dialogs (snd (run_signals e sigs st))) \<le> length sigs"
proof (induction sigs arbitrary: st)
  case Nil
  then show ?case by (simp add: dialogs_Nil)
next
  case (Cons x sigs)
  obtain t sig where x: "x = (t, sig)" by (cases x)
  have d: "length (dialogs (snd (deliver e t sig st))) \<le> 1"
    "\<not> is_error sig \<Longrightarrow> length (dialogs (snd (deliver e t sig st))) = 1"
    using deliver_dialogs_count[where e = e and t = t and sig = sig and st = st] by simp_all
  have r: "snd (run_signals e ((t, sig) # sigs) st) =
      snd (deliver e t sig st) @ snd (run_signals e sigs (fst (deliver e t sig st)))"
    by (simp add: case_prod_beta)
  show ?case
    unfolding x using Cons.IH[of "fst (deliver e t sig st)"] d
    by (cases "is_error sig") (auto simp: r dialogs_append simp del: run_signals.simps)
qed

lemma hotkey_kept:
  "exclusive_esc_hotkey_id (fst (restore_window st)) = exclusive_esc_hotkey_id st"
  "exclusive_esc_hotkey_id (fst (show_normal_if_minimized st)) = exclusive_esc_hotkey_id st"
  "exclusive_esc_hotkey_id (fst (report_worker_error e arg st)) = exclusive_esc_hotkey_id st"
  by (simp_all add: restore_window_def show_normal_if_minimized_def report_worker_error_def
      split: prod.split)

lemma disable_hotkey:
  "exclusive_esc_hotkey_id (fst (disable_exclusive_esc e st)) =
     (if keyboard_lib e then None else exclusive_esc_hotkey_id st)"
  by (simp add: disable_exclusive_esc_def Let_def)

lemma disable_after_manual:
  "snd (disable_exclusive_esc e (fst (deliver e t (ManualIntervention m r) st))) = [SetEnabled False]"
  by (simp add: disable_exclusive_esc_def Let_def deliver_eq show_manual_eq hotkey_kept
      split: option.split)

lemma until_after_manual:
  "suppress_error_dialog_until (fst (deliver e t (ManualIntervention m r) st)) = t + 2"
  by (simp add: deliver_eq Let_def show_manual_eq handler_facts)

lemma boom_plain:
  "\<not> any_in pats_manual_review [98, 111, 111, 109]"
  "\<not> py_in pat_user_stop [98, 111, 111, 109]"
  "\<not> py_in pat_manual_stop [98, 111, 111, 109]"
  by (simp_all add: any_in_def pats_manual_review_def pat_user_stop_def pat_manual_stop_def)

lemma needs_review_matches:
  "any_in pats_manual_review [35813, 39064, 38656, 20154, 24037, 20171, 20837]"
  by (simp add: any_in_def pats_manual_review_def)

lemma user_stop_matches:
  "\<not> any_in pats_manual_review [29992, 25143, 25163, 21160, 20572, 27490]"
  "py_in pat_user_stop [29992, 25143, 25163, 21160, 20572, 27490]"
  by (simp_all add: any_in_def pats_manual_review_def pat_user_stop_def)

lemma apply_op_inert:
  assumes "\<not> win32 e"
  shows "apply_op e x app_init = (inert_outcome x, app_init)"
proof (cases x)
  case Start
  then show ?thesis using assms by (simp add: start_def app_init_def)
next
  case Enable
  then show ?thesis using assms by (simp add: enable_exclusive_esc_if_possible_def)
next
  case Disable
  then show ?thesis
    by (simp add: disable_exclusive_esc_def set_enabled_def app_init_def hook_init_def Let_def)
next
  case Stop
  then show ?thesis using assms by (simp add: stop_def app_init_def)
next
  case (Key he ev)
  then show ?thesis by (simp add: key_event_def app_init_def hook_init_def)
qed

lemma windows_swallows_esc:
  "fst (run_ops windows_env [Start, Enable, Key (quiet_call\<lparr>now := 5\<rparr>) esc_keydown] app_init) =
     [StartReturned True, Returned, KeyOutcome Swallow]"
  by (simp add: windows_env_def app_init_def hook_init_def start_def
      enable_exclusive_esc_if_possible_def set_enabled_def key_event_def hook_proc_def
      hook_try_def quiet_call_def esc_keydown_def HC_ACTION_def WM_KEYDOWN_def VK_ESCAPE_def)

lemma error_early_plain:
  assumes "\<not> t < suppress_error_dialog_until st" "\<not> any_in pats_manual_review msg"
    "\<not> py_in pat_user_stop msg" "\<not> py_in pat_manual_stop msg"
  shows "error_early e t msg st = None"
  using assms
  by (simp add: error_early_def error_window_block_def error_review_block_def
      error_stop_block_def del: py_in.simps)

lemma error_early_window:
  assumes "t < suppress_error_dialog_until st" "\<not> window_reset_raises e"
  shows "error_early e t msg st =
     Some (if has_update_ui_state e then [UpdateUiState False] else [])"
  using assms
  by (simp add: error_early_def error_window_block_def guarded_update_ui_state_def
      update_ui_state_if_present_def)

lemma error_early_review:
  assumes "\<not> t < suppress_error_dialog_until st" "any_in pats_manual_review msg"
    "\<not> review_reset_raises e"
  shows "error_early e t msg st =
     Some (if has_update_ui_state e then [UpdateUiState False] else [])"
  using assms
  by (simp add: error_early_def error_window_block_def error_review_block_def
      guarded_update_ui_state_def update_ui_state_if_present_def)

lemma error_early_stop:
  assumes "\<not> t < suppress_error_dialog_until st" "\<not> any_in pats_manual_review msg"
    "py_in pat_user_stop msg \<or> py_in pat_manual_stop msg" "\<not> stop_reset_raises e"
  shows "error_early e t msg st =
     Some (if has_on_worker_error e then [OnWorkerError pat_user_stop]
           else if has_update_ui_state e then [UpdateUiState False] else [])"
  using assms
  by (simp add: error_early_def error_window_block_def error_review_block_def
      error_stop_block_def guarded_update_ui_state_def update_ui_state_if_present_def
      del: py_in.simps)

lemma reset_fault_falls_through:
  assumes "has_update_ui_state e" "\<not> any_in pats_manual_review msg \<or> review_reset_raises e"
    "\<not> py_in pat_user_stop msg" "\<not> py_in pat_manual_stop msg"
    "\<not> t < suppress_error_dialog_until st \<or> window_reset_raises e"
  shows "dialogs (snd (show_error_notification e t msg st)) =
     [ExecDialog (ErrorDialog (simplify_for_teacher (str_lower e) (Some msg)))]"
proof -
  have "error_early e t msg st = None"
    using assms
    by (auto simp: error_early_def error_window_block_def error_review_block_def
        error_stop_block_def guarded_update_ui_state_def simp del: py_in.simps)
  then show ?thesis by (simp add: show_error_dialogs)
qed

section \<open>The lifecycle bridge and the coordinator: theorems\<close>

text \<open>
  Claim C6. For each of the four terminal signals, in every state and environment, the first
  thing the slots of the signal do is \<open>set_enabled(False)\<close> on the hook object: the trace of the
  signal starts with it, so every dialog of the trace comes after it; nothing in the trace
  arms the hook again, and the hook is disarmed when the slots have run. Each of the four
  \<open>show_...\<close> handlers on its own starts with \<open>set_enabled(False)\<close> as well.
\<close>

theorem terminal_signal_disables_first:
  "(\<exists>rest. snd (deliver e t sig st) = SetEnabled False # rest) \<and>
   (\<forall>i < length (snd (deliver e t sig st)).
      is_dialog (snd (deliver e t sig st) ! i) \<longrightarrow>
      (\<exists>j < i. snd (deliver e t sig st) ! j = SetEnabled False)) \<and>
   SetEnabled True \<notin> set (snd (deliver e t sig st)) \<and>
   \<not> enabled (win_exclusive_esc (fst (deliver e t sig st))) \<and>
   (\<exists>rest. snd (show_completion_notification e st) = SetEnabled False # rest) \<and>
   (\<exists>rest. snd (show_error_notification e t m st) = SetEnabled False # rest) \<and>
   (\<exists>rest. snd (show_threshold_exceeded_notification e r st) = SetEnabled False # rest) \<and>
   (\<exists>rest. snd (show_manual_intervention_notification e t m r st) = SetEnabled False # rest)"
proof -
  obtain rest where evs: "snd (deliver e t sig st) = SetEnabled False # rest"
    using deliver_head by blast
  have before: "\<forall>i < length (snd (deliver e t sig st)).
      is_dialog (snd (deliver e t sig st) ! i) \<longrightarrow>
      (\<exists>j < i. snd (deliver e t sig st) ! j = SetEnabled False)"
  proof (intro allI impI)
    fix i assume "i < length (snd (deliver e t sig st))"
      and d: "is_dialog (snd (deliver e t sig st) ! i)"
    have "i \<noteq> 0" using d evs by (cases i) auto
    then have "0 < i" by simp
    moreover have "snd (deliver e t sig st) ! 0 = SetEnabled False" using evs by simp
    ultimately show "\<exists>j < i. snd (deliver e t sig st) ! j = SetEnabled False" by blast
  qed
  show ?thesis
    using evs before deliver_no_enable[of e t sig st] deliver_disabled[of e t sig st]
      handler_heads(1)[of e st] handler_heads(2)[of e t m st] handler_heads(3)[of e r st]
      handler_heads(4)[of e t m r st]
    by (intro conjI) blast+
qed

text \<open>
  The theorem at the completion signal in the initial state: the dialog is the fourth event
  of the trace, \<open>set_enabled(False)\<close> the first.
\<close>

theorem terminal_signal_disables_first_witness:
  "snd (deliver windows_env 0 Completed app_init) ! 3 = ExecDialog CompletionDialog \<and>
   snd (deliver windows_env 0 Completed app_init) ! 0 = SetEnabled False \<and>
   \<not> enabled (win_exclusive_esc (fst (deliver windows_env 0 Completed app_init)))"
  using terminal_signal_disables_first[of windows_env 0 Completed app_init]
  by (simp add: completed_events)

text \<open>
  Claim C1, amended. Each terminal signal presents at most one notification, and each signal
  that is not an error signal (completion, threshold exceeded, manual intervention) presents
  exactly one. So a run that delivers the signals \<open>sigs\<close> presents at least as many
  notifications as it has signals other than errors and at most as many as it has signals,
  and a run that delivers a single signal that is not an error presents exactly one.
\<close>

theorem one_notification_per_signal:
  "length (dialogs (snd (deliver e t sig st))) \<le> 1 \<and>
   (\<not> is_error sig \<longrightarrow> length (dialogs (snd (deliver e t sig st))) = 1) \<and>
   length (filter (\<lambda>x. \<not> is_error (snd x)) sigs) \<le> length (dialogs (snd (run_signals e sigs st))) \<and>
   length (dialogs (snd (run_signals e sigs st))) \<le> length sigs \<and>
   (\<not> is_error sig \<longrightarrow> length (dialogs (snd (run_signals e [(t, sig)] st))) = 1)"
proof -
  have d: "length (dialogs (snd (deliver e t sig st))) \<le> 1"
    "\<not> is_error sig \<longrightarrow> length (dialogs (snd (deliver e t sig st))) = 1"
    by (rule deliver_dialogs_count)+
  have s: "snd (run_signals e [(t, sig)] st) = snd (deliver e t sig st)"
    by (simp add: case_prod_beta)
  show ?thesis using d run_signals_dialogs[of sigs e st] by (simp add: s)
qed

text \<open>The theorem at a run with the single signal "threshold exceeded", and at a completion.\<close>

theorem one_notification_per_signal_witness:
  "length (dialogs (snd (run_signals windows_env [(0, ThresholdExceeded [])] app_init))) = 1 \<and>
   length (dialogs (snd (deliver windows_env 0 Completed app_init))) = 1"
  using one_notification_per_signal[of windows_env 0 "ThresholdExceeded []" app_init "[]"]
    one_notification_per_signal[of windows_env 0 Completed app_init "[]"]
  by simp

text \<open>
  Claim C1 as stated fails both ways. A run whose only signal is the error "stopped by the
  user by hand" (U+7528 U+6237 U+624B U+52A8 U+505C U+6B62) presents no notification. A run
  that delivers a manual intervention at time 0 and the error "boom" at time 3, after the
  suppression window has ended, presents two.
\<close>

theorem exactly_one_notification_counterexample:
  "length (dialogs (snd (run_signals windows_env
      [(0, Error [29992, 25143, 25163, 21160, 20572, 27490])] app_init))) = 0 \<and>
   length (dialogs (snd (run_signals windows_env
      [(0, ManualIntervention [] []), (3, Error [98, 111, 111, 109])] app_init))) = 2"
proof -
  have a: "py_in pat_user_stop [29992, 25143, 25163, 21160, 20572, 27490]"
    by (simp add: pat_user_stop_def)
  have b: "\<not> any_in pats_manual_review [98, 111, 111, 109]"
    "\<not> py_in pat_user_stop [98, 111, 111, 109]" "\<not> py_in pat_manual_stop [98, 111, 111, 109]"
    by (simp_all add: any_in_def pats_manual_review_def pat_user_stop_def pat_manual_stop_def)
  have u: "suppress_error_dialog_until (fst (deliver windows_env 0 (ManualIntervention [] []) app_init)) = 2"
    by (simp add: deliver_eq Let_def show_manual_eq handler_facts)
  have q: "\<not> stop_reset_raises windows_env" by (simp add: windows_env_def)
  have n: "\<not> 0 < suppress_error_dialog_until app_init" by (simp add: app_init_def)
  have "error_early windows_env 0 [29992, 25143, 25163, 21160, 20572, 27490] app_init \<noteq> None"
    using error_early_stop[OF n user_stop_matches(1) disjI1[OF user_stop_matches(2)] q] by simp
  then have d1: "dialogs (snd (deliver windows_env 0
      (Error [29992, 25143, 25163, 21160, 20572, 27490]) app_init)) = []"
    by (auto simp: deliver_dialogs simp del: py_in.simps)
  have d2: "dialogs (snd (deliver windows_env 0 (ManualIntervention [] []) app_init)) =
      [ExecDialog (ManualDialog [] [])]"
    by (simp add: deliver_dialogs)
  have "error_early windows_env 3 [98, 111, 111, 109]
      (fst (deliver windows_env 0 (ManualIntervention [] []) app_init)) = None"
    using b by (intro error_early_plain) (simp_all add: u del: py_in.simps)
  then have d3: "length (dialogs (snd (deliver windows_env 3 (Error [98, 111, 111, 109])
      (fst (deliver windows_env 0 (ManualIntervention [] []) app_init))))) = 1"
    by (simp add: deliver_dialogs del: py_in.simps)
  show ?thesis
    by (simp add: case_prod_beta dialogs_append d1 d2 d3 dialogs_Nil del: py_in.simps)
qed

text \<open>
  Claim C2, amended. A manual-intervention signal handled at time \<open>t\<close> is presented and sets
  the end of the suppression window to \<open>t + 2\<close>. An error signal handled at a time before
  \<open>t + 2\<close> is suppressed, provided the reset call of line 844 does not raise: no dialog is
  shown, and with a main window that has \<open>update_ui_state\<close> the handler disarms the hook, calls
  \<open>update_ui_state(is_running=False)\<close> and does nothing else. An error signal handled at
  \<open>t + 2\<close> or later
  is no longer suppressed by the window: it shows the interruption dialog when its message
  matches none of the manual-review and user-stop patterns, and shows no dialog when it
  matches one of them and the reset call for that pattern does not raise.
\<close>

theorem manual_intervention_window:
  "dialogs (snd (deliver e t (ManualIntervention message raw) st)) =
     [ExecDialog (ManualDialog message raw)] \<and>
   suppress_error_dialog_until (fst (deliver e t (ManualIntervention message raw) st)) = t + 2 \<and>
   (\<forall>u msg. u < t + 2 \<and> \<not> window_reset_raises e \<longrightarrow>
      dialogs (snd (deliver e u (Error msg) (fst (deliver e t (ManualIntervention message raw) st))))
        = [] \<and>
      (has_update_ui_state e \<longrightarrow>
         snd (show_error_notification e u msg
                (fst (deliver e t (ManualIntervention message raw) st)))
           = [SetEnabled False, UpdateUiState False])) \<and>
   (\<forall>u msg. t + 2 \<le> u \<and> \<not> any_in pats_manual_review msg \<and> \<not> py_in pat_user_stop msg \<and>
        \<not> py_in pat_manual_stop msg \<longrightarrow>
      dialogs (snd (deliver e u (Error msg) (fst (deliver e t (ManualIntervention message raw) st))))
        = [ExecDialog (ErrorDialog (simplify_for_teacher (str_lower e) (Some msg)))]) \<and>
   (\<forall>u msg. t + 2 \<le> u \<and>
        (any_in pats_manual_review msg \<or> py_in pat_user_stop msg \<or> py_in pat_manual_stop msg) \<and>
        \<not> review_reset_raises e \<and> \<not> stop_reset_raises e \<longrightarrow>
      dialogs (snd (deliver e u (Error msg) (fst (deliver e t (ManualIntervention message raw) st))))
        = [])"
proof -
  let ?st1 = "fst (deliver e t (ManualIntervention message raw) st)"
  have a: "dialogs (snd (deliver e t (ManualIntervention message raw) st)) =
     [ExecDialog (ManualDialog message raw)]"
    by (simp add: deliver_dialogs)
  have b: "suppress_error_dialog_until ?st1 = t + 2" by (rule until_after_manual)
  have c: "dialogs (snd (deliver e u (Error msg) ?st1)) = [] \<and>
      (has_update_ui_state e \<longrightarrow>
         snd (show_error_notification e u msg ?st1) = [SetEnabled False, UpdateUiState False])"
    if h: "u < t + 2 \<and> \<not> window_reset_raises e" for u msg
  proof -
    have w: "u < suppress_error_dialog_until ?st1" using h b by simp
    have q: "\<not> window_reset_raises e" using h by simp
    note ee = error_early_window[OF w q, of msg]
    have "snd (show_error_notification e u msg ?st1) =
        SetEnabled False # (if has_update_ui_state e then [UpdateUiState False] else [])"
      by (simp add: show_error_early[OF ee] disable_after_manual)
    moreover have "dialogs (snd (deliver e u (Error msg) ?st1)) = []"
      by (simp add: deliver_dialogs ee)
    ultimately show ?thesis by simp
  qed
  have d: "dialogs (snd (deliver e u (Error msg) ?st1))
        = [ExecDialog (ErrorDialog (simplify_for_teacher (str_lower e) (Some msg)))]"
    if h: "t + 2 \<le> u \<and> \<not> any_in pats_manual_review msg \<and> \<not> py_in pat_user_stop msg \<and>
        \<not> py_in pat_manual_stop msg" for u msg
  proof -
    have w: "\<not> u < suppress_error_dialog_until ?st1" using h b by simp
    have "error_early e u msg ?st1 = None"
      using w h by (intro error_early_plain) simp_all
    then show ?thesis by (simp add: deliver_dialogs)
  qed
  have f: "dialogs (snd (deliver e u (Error msg) ?st1)) = []"
    if h: "t + 2 \<le> u \<and>
        (any_in pats_manual_review msg \<or> py_in pat_user_stop msg \<or> py_in pat_manual_stop msg) \<and>
        \<not> review_reset_raises e \<and> \<not> stop_reset_raises e" for u msg
  proof -
    have w: "\<not> u < suppress_error_dialog_until ?st1" using h b by simp
    have "error_early e u msg ?st1 \<noteq> None"
    proof (cases "any_in pats_manual_review msg")
      case True
      have "\<not> review_reset_raises e" using h by simp
      from error_early_review[OF w True this] show ?thesis by simp
    next
      case False
      have s: "py_in pat_user_stop msg \<or> py_in pat_manual_stop msg" using h False by blast
      have "\<not> stop_reset_raises e" using h by simp
      from error_early_stop[OF w False s this] show ?thesis by simp
    qed
    then show ?thesis by (auto simp: deliver_dialogs)
  qed
  from a b c d f show ?thesis by (intro conjI allI impI) blast+
qed

text \<open>
  The theorem after a manual intervention at time 10, on the Windows machine: the error "this
  question needs manual intervention" (U+8BE5 U+9898 U+9700 U+4EBA U+5DE5 U+4ECB U+5165) at
  10.5 disarms the hook, resets the UI and shows no dialog; the error "boom" at 12.1 shows
  one dialog, and the first message at 12.1 shows none.
\<close>

theorem manual_intervention_window_witness:
  "snd (show_error_notification windows_env 10.5 [35813, 39064, 38656, 20154, 24037, 20171, 20837]
      (fst (deliver windows_env 10 (ManualIntervention [] []) app_init))) =
     [SetEnabled False, UpdateUiState False] \<and>
   dialogs (snd (deliver windows_env 10.5 (Error [35813, 39064, 38656, 20154, 24037, 20171, 20837])
      (fst (deliver windows_env 10 (ManualIntervention [] []) app_init)))) = [] \<and>
   length (dialogs (snd (deliver windows_env 12.1 (Error [98, 111, 111, 109])
      (fst (deliver windows_env 10 (ManualIntervention [] []) app_init))))) = 1 \<and>
   dialogs (snd (deliver windows_env 12.1 (Error [35813, 39064, 38656, 20154, 24037, 20171, 20837])
      (fst (deliver windows_env 10 (ManualIntervention [] []) app_init)))) = []"
proof -
  note w = manual_intervention_window[of windows_env 10 "[]" "[]" app_init]
  have f: "\<forall>u msg. 10 + 2 \<le> u \<and>
        (any_in pats_manual_review msg \<or> py_in pat_user_stop msg \<or> py_in pat_manual_stop msg) \<and>
        \<not> review_reset_raises windows_env \<and> \<not> stop_reset_raises windows_env \<longrightarrow>
      dialogs (snd (deliver windows_env u (Error msg)
             (fst (deliver windows_env 10 (ManualIntervention [] []) app_init)))) = []"
    using w by (elim conjE)
  have ge2: "(10::real) + 2 \<le> 12.1 \<and>
      (any_in pats_manual_review [35813, 39064, 38656, 20154, 24037, 20171, 20837] \<or>
       py_in pat_user_stop [35813, 39064, 38656, 20154, 24037, 20171, 20837] \<or>
       py_in pat_manual_stop [35813, 39064, 38656, 20154, 24037, 20171, 20837]) \<and>
      \<not> review_reset_raises windows_env \<and> \<not> stop_reset_raises windows_env"
    using needs_review_matches by (simp add: windows_env_def del: py_in.simps)
  have 4: "dialogs (snd (deliver windows_env 12.1
      (Error [35813, 39064, 38656, 20154, 24037, 20171, 20837])
      (fst (deliver windows_env 10 (ManualIntervention [] []) app_init)))) = []"
    by (rule f[rule_format, OF ge2])
  have c: "\<forall>u msg. u < 10 + 2 \<and> \<not> window_reset_raises windows_env \<longrightarrow>
      dialogs (snd (deliver windows_env u (Error msg)
             (fst (deliver windows_env 10 (ManualIntervention [] []) app_init)))) = [] \<and>
      (has_update_ui_state windows_env \<longrightarrow>
         snd (show_error_notification windows_env u msg
                (fst (deliver windows_env 10 (ManualIntervention [] []) app_init)))
           = [SetEnabled False, UpdateUiState False])"
    using w by (elim conjE)
  have d: "\<forall>u msg. 10 + 2 \<le> u \<and> \<not> any_in pats_manual_review msg \<and> \<not> py_in pat_user_stop msg \<and>
        \<not> py_in pat_manual_stop msg \<longrightarrow>
      dialogs (snd (deliver windows_env u (Error msg)
             (fst (deliver windows_env 10 (ManualIntervention [] []) app_init))))
        = [ExecDialog (ErrorDialog (simplify_for_teacher (str_lower windows_env) (Some msg)))]"
    using w by (elim conjE)
  have lt: "(10.5::real) < 10 + 2 \<and> \<not> window_reset_raises windows_env"
    by (simp add: windows_env_def)
  have hu: "has_update_ui_state windows_env" by (simp add: windows_env_def)
  have ge: "(10::real) + 2 \<le> 12.1 \<and> \<not> any_in pats_manual_review [98, 111, 111, 109] \<and>
      \<not> py_in pat_user_stop [98, 111, 111, 109] \<and> \<not> py_in pat_manual_stop [98, 111, 111, 109]"
    using boom_plain by (simp del: py_in.simps)
  note c1 = c[rule_format, OF lt, of "[35813, 39064, 38656, 20154, 24037, 20171, 20837]"]
  have 1: "snd (show_error_notification windows_env 10.5
      [35813, 39064, 38656, 20154, 24037, 20171, 20837]
      (fst (deliver windows_env 10 (ManualIntervention [] []) app_init))) =
     [SetEnabled False, UpdateUiState False]"
    by (rule conjunct2[OF c1, rule_format, OF hu])
  have 2: "dialogs (snd (deliver windows_env 10.5
      (Error [35813, 39064, 38656, 20154, 24037, 20171, 20837])
      (fst (deliver windows_env 10 (ManualIntervention [] []) app_init)))) = []"
    by (rule conjunct1[OF c1])
  have 3: "length (dialogs (snd (deliver windows_env 12.1 (Error [98, 111, 111, 109])
      (fst (deliver windows_env 10 (ManualIntervention [] []) app_init))))) = 1"
    using d[rule_format, OF ge] by simp
  from 1 2 3 4 show ?thesis by (intro conjI)
qed

text \<open>
  Claim C2 as stated fails at the end of the interval and after it. After a manual
  intervention at time 10, the error "boom" at time 12, inside the closed interval from 10 to
  12, is presented (the test is \<open>time.time() < until\<close>); and the error "this question needs
  manual intervention" at 12.1 is not presented, because of its message.
\<close>

theorem closed_window_counterexample:
  "(10::real) \<le> 12 \<and> (12::real) \<le> 10 + 2 \<and>
   length (dialogs (snd (deliver windows_env 12 (Error [98, 111, 111, 109])
      (fst (deliver windows_env 10 (ManualIntervention [] []) app_init))))) = 1 \<and>
   (10::real) + 2 < 12.1 \<and>
   dialogs (snd (deliver windows_env 12.1
      (Error [35813, 39064, 38656, 20154, 24037, 20171, 20837])
      (fst (deliver windows_env 10 (ManualIntervention [] []) app_init)))) = []"
proof -
  let ?st1 = "fst (deliver windows_env 10 (ManualIntervention [] []) app_init)"
  have u: "suppress_error_dialog_until ?st1 = 10 + 2" by (rule until_after_manual)
  have "error_early windows_env 12 [98, 111, 111, 109] ?st1 = None"
    using boom_plain by (intro error_early_plain) (simp_all add: u del: py_in.simps)
  then have 1: "length (dialogs (snd (deliver windows_env 12 (Error [98, 111, 111, 109])
      ?st1))) = 1"
    by (simp add: deliver_dialogs del: py_in.simps)
  have w: "\<not> 12.1 < suppress_error_dialog_until ?st1" by (simp add: u)
  have q: "\<not> review_reset_raises windows_env" by (simp add: windows_env_def)
  have "error_early windows_env 12.1 [35813, 39064, 38656, 20154, 24037, 20171, 20837] ?st1
      \<noteq> None"
    using error_early_review[OF w needs_review_matches q] by simp
  then have 2: "dialogs (snd (deliver windows_env 12.1
      (Error [35813, 39064, 38656, 20154, 24037, 20171, 20837]) ?st1)) = []"
    by (auto simp: deliver_dialogs simp del: py_in.simps)
  from 1 2 show ?thesis by simp
qed



section \<open>The subsystem off Windows: theorem\<close>

text \<open>
  Claim C8. On a platform that is not Windows (no native hook; with or without the
  \<open>keyboard\<close> library), from the initial state and through any sequence of calls and key
  events: every \<open>start()\<close> returns \<open>False\<close>, every enable, disable and \<open>stop()\<close> leaves the state
  as it was, and every key event goes on unchanged, none is swallowed. The state after the
  sequence is the initial state.
\<close>

theorem inert_off_windows:
  assumes "\<not> win32 e"
  shows "run_ops e ops app_init = (map inert_outcome ops, app_init)"
proof (induction ops)
  case Nil
  show ?case by simp
next
  case (Cons x xs)
  show ?case by (simp add: apply_op_inert[OF assms] Cons.IH)
qed

text \<open>The theorem on the machine that is not Windows, at a sequence of seven calls.\<close>

theorem inert_off_windows_witness:
  "run_ops other_env
     [Start, Enable, Key quiet_call esc_keydown, Disable, Key quiet_call esc_keydown, Stop, Start]
     app_init =
   ([StartReturned False, Returned, KeyOutcome (CallNext esc_keydown), Returned,
     KeyOutcome (CallNext esc_keydown), Returned, StartReturned False], app_init)"
proof -
  have h: "\<not> win32 other_env" by (simp add: other_env_def)
  show ?thesis
    using inert_off_windows[OF h,
        of "[Start, Enable, Key quiet_call esc_keydown, Disable, Key quiet_call esc_keydown, Stop, Start]"]
    by simp
qed

end
